theory Spec2Isabelle
  imports Complex_Main
begin

section \<open>Python values used by the payout engine\<close>

text \<open>
  Conventions of the embedding.
  \<^item> \<open>Optional[str]\<close> is \<open>string option\<close>; Python truthiness of such a value
    (\<open>if x:\<close>, \<open>not x\<close>, \<open>x or d\<close>) is \<open>truthy\<close>: neither \<open>None\<close> nor the empty string.
  \<^item> A Python \<open>float\<close> is modelled by the real number it denotes. NaN and the
    infinities are outside the model, and so is binary rounding of products and quotients.
    The text Python prints for a float is not computed here: functions that format a float
    take the formatter \<open>fmt\<close> as their first argument.
  \<^item> Strings are byte strings; \<open>upper\<close> and \<open>strip\<close> are the ASCII parts of
    \<open>str.upper\<close> and \<open>str.strip\<close>.
\<close>

definition truthy :: "string option \<Rightarrow> bool" where
  "truthy x = (case x of None \<Rightarrow> False | Some s \<Rightarrow> s \<noteq> [])"

definition or_else :: "string option \<Rightarrow> string \<Rightarrow> string" where
  "or_else x d = (case x of None \<Rightarrow> d | Some s \<Rightarrow> if s = [] then d else s)"

definition str_opt :: "string option \<Rightarrow> string" where
  "str_opt x = (case x of None \<Rightarrow> ''None'' | Some s \<Rightarrow> s)"

definition upper_char :: "char \<Rightarrow> char" where
  "upper_char c =
     (case map_of (zip ''abcdefghijklmnopqrstuvwxyz'' ''ABCDEFGHIJKLMNOPQRSTUVWXYZ'') c of
        None \<Rightarrow> c
      | Some u \<Rightarrow> u)"

definition upper :: "string \<Rightarrow> string" where
  "upper s = map upper_char s"

definition is_space :: "char \<Rightarrow> bool" where
  "is_space c =
     (c \<in> set [CHR 0x09, CHR 0x0A, CHR 0x0B, CHR 0x0C, CHR 0x0D,
                CHR 0x1C, CHR 0x1D, CHR 0x1E, CHR 0x1F, CHR 0x20])"

definition strip :: "string \<Rightarrow> string" where
  "strip s = rev (dropWhile is_space (rev (dropWhile is_space s)))"

text \<open>The em dash of the labels, as its three UTF-8 bytes.\<close>

definition em_dash :: string where
  "em_dash = [CHR 0xE2, CHR 0x80, CHR 0x94]"

text \<open>
  Python's \<open>round(x)\<close> on a float: the nearest integer, a tie going to the even one.
  \<open>round(x, 2)\<close> is read as the same rounding of the hundredths.
\<close>

definition py_round :: "real \<Rightarrow> int" where
  "py_round x =
     (let f = \<lfloor>x\<rfloor>; d = x - of_int f
      in if d < 1 / 2 then f
         else if 1 / 2 < d then f + 1
         else if even f then f else f + 1)"

definition py_round2 :: "real \<Rightarrow> real" where
  "py_round2 x = of_int (py_round (x * 100)) / 100"


section \<open>Enumerations (app/models/enums.py)\<close>

datatype PayoutStatus = PENDING | ELIGIBLE | PROCESSING | COMPLETED | FAILED | SKIPPED

datatype RunStatus = RUN_RUNNING | RUN_COMPLETED | RUN_FAILED

datatype SkipReason =
    INVALID_METHOD
  | WRONG_STATUS
  | INVALID_AMOUNT
  | MISSING_EXTERNAL_ACCOUNT
  | EXISTING_PAYMENT_ORDER
  | MISSING_COUNTRY


section \<open>Eligibility gate (app/engine/eligibility.py)\<close>

definition ALLOWED_METHODS :: "string set" where
  "ALLOWED_METHODS = {''ACH'', ''Wire''}"

record EligibilityResult =
  eligible :: bool
  skip_reason :: "SkipReason option"
  message :: string

definition check_eligibility ::
  "(real \<Rightarrow> string) \<Rightarrow> string option \<Rightarrow> real option \<Rightarrow> string option \<Rightarrow> string option \<Rightarrow>
   string option \<Rightarrow> EligibilityResult" where
  "check_eligibility fmt payment_method amount external_account_id country
       existing_payment_order_id =
     (if truthy existing_payment_order_id then
        \<lparr>eligible = False, skip_reason = Some EXISTING_PAYMENT_ORDER,
         message = ''Payment order already exists: '' @ str_opt existing_payment_order_id\<rparr>
      else if \<not> truthy payment_method \<or> payment_method \<notin> Some ` ALLOWED_METHODS then
        \<lparr>eligible = False, skip_reason = Some INVALID_METHOD,
         message = ''Invalid payment method: '' @ str_opt payment_method\<rparr>
      else if (case amount of None \<Rightarrow> True | Some a \<Rightarrow> a \<le> 0) then
        \<lparr>eligible = False, skip_reason = Some INVALID_AMOUNT,
         message = ''Invalid amount: '' @ (case amount of None \<Rightarrow> ''None'' | Some a \<Rightarrow> fmt a)\<rparr>
      else if \<not> truthy external_account_id then
        \<lparr>eligible = False, skip_reason = Some MISSING_EXTERNAL_ACCOUNT,
         message = ''No external bank account on file''\<rparr>
      else if \<not> truthy country then
        \<lparr>eligible = False, skip_reason = Some MISSING_COUNTRY,
         message = ''Missing country code''\<rparr>
      else \<lparr>eligible = True, skip_reason = None, message = ''''\<rparr>)"

text \<open>
  The gate as the specification words it: five checks in a fixed order, the first failing
  one giving the reason. "Set", "absent" and "empty" are spelled out on the option type.
\<close>

definition order_id_set :: "string option \<Rightarrow> bool" where
  "order_id_set x = (x \<noteq> None \<and> x \<noteq> Some [])"

definition absent_or_empty :: "string option \<Rightarrow> bool" where
  "absent_or_empty x = (x = None \<or> x = Some [])"

definition method_invalid :: "string option \<Rightarrow> bool" where
  "method_invalid m = (case m of None \<Rightarrow> True | Some s \<Rightarrow> s \<noteq> ''ACH'' \<and> s \<noteq> ''Wire'')"

definition amount_invalid :: "real option \<Rightarrow> bool" where
  "amount_invalid a = (case a of None \<Rightarrow> True | Some r \<Rightarrow> r = 0 \<or> r < 0)"

definition gate_spec ::
  "string option \<Rightarrow> real option \<Rightarrow> string option \<Rightarrow> string option \<Rightarrow> string option \<Rightarrow>
   bool \<times> SkipReason option" where
  "gate_spec payment_method amount external_account_id country existing_order_id =
     (if order_id_set existing_order_id then (False, Some EXISTING_PAYMENT_ORDER)
      else if method_invalid payment_method then (False, Some INVALID_METHOD)
      else if amount_invalid amount then (False, Some INVALID_AMOUNT)
      else if absent_or_empty external_account_id then (False, Some MISSING_EXTERNAL_ACCOUNT)
      else if absent_or_empty country then (False, Some MISSING_COUNTRY)
      else (True, None))"


section \<open>Rail selection (app/routing/country_rails.py, app/routing/rail_selector.py)\<close>

text \<open>
  A \<open>RailConfig\<close> dictionary. Every entry of the table has the keys \<open>type\<close>,
  \<open>subtype\<close> and \<open>currency\<close>; \<open>currency\<close> and \<open>purpose\<close> are read with
  \<open>.get\<close>, so they are optional here. No entry is an empty dictionary, so the test
  \<open>if cfg:\<close> of \<open>select_rail\<close> asks whether the country is a key of the table.
\<close>

record RailConfig =
  cfg_type :: string
  cfg_subtype :: string
  cfg_currency :: "string option"
  cfg_purpose :: "string option"

definition cross_border :: "string \<Rightarrow> string \<Rightarrow> RailConfig" where
  "cross_border st cur =
     \<lparr>cfg_type = ''cross_border'', cfg_subtype = st, cfg_currency = Some cur,
      cfg_purpose = None\<rparr>"

definition GLOBAL_ACH_MAP :: "(string \<times> RailConfig) list" where
  "GLOBAL_ACH_MAP =
    [(''DE'', cross_border ''sepa'' ''EUR''), (''FR'', cross_border ''sepa'' ''EUR''),
     (''ES'', cross_border ''sepa'' ''EUR''), (''NL'', cross_border ''sepa'' ''EUR''),
     (''IT'', cross_border ''sepa'' ''EUR''), (''AT'', cross_border ''sepa'' ''EUR''),
     (''BE'', cross_border ''sepa'' ''EUR''), (''IE'', cross_border ''sepa'' ''EUR''),
     (''PT'', cross_border ''sepa'' ''EUR''), (''FI'', cross_border ''sepa'' ''EUR''),
     (''GR'', cross_border ''sepa'' ''EUR''), (''LU'', cross_border ''sepa'' ''EUR''),
     (''CY'', cross_border ''sepa'' ''EUR''), (''MT'', cross_border ''sepa'' ''EUR''),
     (''SK'', cross_border ''sepa'' ''EUR''), (''LT'', cross_border ''sepa'' ''EUR''),
     (''SI'', cross_border ''sepa'' ''EUR''), (''EE'', cross_border ''sepa'' ''EUR''),
     (''LV'', cross_border ''sepa'' ''EUR''),
     (''GB'', cross_border ''bacs'' ''GBP''),
     (''CA'', (cross_border ''eft'' ''CAD'')\<lparr>cfg_purpose := Some ''250''\<rparr>),
     (''CH'', cross_border ''sic'' ''CHF''),
     (''PL'', cross_border ''pl_elixir'' ''PLN''),
     (''AU'', cross_border ''au_becs'' ''AUD''),
     (''SG'', cross_border ''sg_giro'' ''SGD''),
     (''IN'', cross_border ''neft'' ''INR''),
     (''JP'', cross_border ''zengin'' ''JPY''),
     (''DK'', cross_border ''dk_nets'' ''DKK''),
     (''NZ'', cross_border ''nz_becs'' ''NZD''),
     (''NO'', cross_border ''nics'' ''NOK''),
     (''HK'', cross_border ''chats'' ''HKD''),
     (''SE'', cross_border ''se_bankgirot'' ''SEK''),
     (''RO'', cross_border ''ro_sent'' ''RON''),
     (''MX'', cross_border ''mx_ccen'' ''MXN''),
     (''IL'', cross_border ''masav'' ''ILS''),
     (''ID'', cross_border ''sknbi'' ''IDR''),
     (''HU'', cross_border ''hu_ics'' ''HUF'')]"

record RailDecision =
  payment_type :: string
  subtype :: "string option"
  currency :: string
  purpose :: "string option"
  fx_indicator :: "string option"
  label :: string

text \<open>The normalisation of the first line of \<open>select_rail\<close>.\<close>

definition normalise_country :: "string option \<Rightarrow> string" where
  "normalise_country country_code = upper (strip (or_else country_code ''''))"

definition select_rail :: "string option \<Rightarrow> string option \<Rightarrow> bool \<Rightarrow> RailDecision" where
  "select_rail country_code payment_method has_aba_routing =
     (let country = normalise_country country_code
      in if has_aba_routing \<and> country \<noteq> ''US'' then
           \<lparr>payment_type = ''ach'', subtype = Some ''CCD'', currency = ''USD'', purpose = None,
            fx_indicator = None,
            label = ''ACH (US) '' @ em_dash @ '' foreign investor ('' @ country
                    @ '') with US bank''\<rparr>
         else if country = ''US'' then
           \<lparr>payment_type = ''ach'', subtype = Some ''CCD'', currency = ''USD'', purpose = None,
            fx_indicator = None, label = ''ACH (US)''\<rparr>
         else
           (case map_of GLOBAL_ACH_MAP country of
              Some cfg \<Rightarrow>
                (let st = cfg_subtype cfg;
                     cur = (case cfg_currency cfg of None \<Rightarrow> ''USD'' | Some c \<Rightarrow> c)
                 in \<lparr>payment_type = ''cross_border'', subtype = Some st, currency = cur,
                     purpose = cfg_purpose cfg, fx_indicator = Some ''fixed_to_variable'',
                     label = ''Cross-Border '' @ upper st @ '' ('' @ cur @ '')''\<rparr>)
            | None \<Rightarrow>
                \<lparr>payment_type = ''wire'', subtype = None, currency = ''USD'', purpose = None,
                 fx_indicator = None,
                 label = ''Wire (International) '' @ em_dash @ '' ''
                         @ (if country = [] then ''unknown'' else country)\<rparr>))"

section \<open>Retry wrapper (app/engine/retry.py)\<close>

text \<open>
  The exceptions an operation can raise: \<open>ProviderError message status_code retriable\<close>,
  \<open>RateLimitError message retry_after\<close> (status 429, retriable),
  \<open>PermanentError message status_code\<close> (not retriable), and any other exception, with
  its text. \<open>is_provider_error\<close> is \<open>isinstance(e, ProviderError)\<close>, \<open>retriable\<close> the
  attribute of that name, \<open>str_exn\<close> the text \<open>str(e)\<close>.
\<close>

datatype exn =
    ProviderError string int bool
  | RateLimitError string "real option"
  | PermanentError string int
  | OtherException string

fun is_provider_error :: "exn \<Rightarrow> bool" where
  "is_provider_error (OtherException _) = False"
| "is_provider_error _ = True"

fun retriable :: "exn \<Rightarrow> bool" where
  "retriable (ProviderError _ _ r) = r"
| "retriable (RateLimitError _ _) = True"
| "retriable (PermanentError _ _) = False"
| "retriable (OtherException _) = False"

fun str_exn :: "exn \<Rightarrow> string" where
  "str_exn (ProviderError m _ _) = m"
| "str_exn (RateLimitError m _) = m"
| "str_exn (PermanentError m _) = m"
| "str_exn (OtherException m) = m"

text \<open>
  The operation is a step function on the state of the outside world: a call returns the
  value or the exception raised, and the next state. A run of \<open>with_retry\<close> returns
  what the caller sees (the value, or the exception that propagates), the state after the
  last call, the number of calls made and the durations passed to \<open>asyncio.sleep\<close>,
  in order.
\<close>

definition MAX_RETRIES :: int where "MAX_RETRIES = 5"
definition BASE_DELAY :: real where "BASE_DELAY = 1"
definition MAX_DELAY :: real where "MAX_DELAY = 30"

record ('a, 's) retry_run =
  outcome :: "exn + 'a"
  final_state :: 's
  calls :: nat
  sleeps :: "real list"

definition stop :: "exn + 'a \<Rightarrow> 's \<Rightarrow> ('a, 's) retry_run" where
  "stop r s = \<lparr>outcome = r, final_state = s, calls = 1, sleeps = []\<rparr>"

text \<open>
  The duration of one wait: the computed delay capped at \<open>MAX_DELAY\<close>, replaced by the
  capped \<open>retry_after\<close> when the error is a \<open>RateLimitError\<close> whose \<open>retry_after\<close> is
  truthy (neither \<open>None\<close> nor zero).
\<close>

fun sleep_for :: "exn \<Rightarrow> real \<Rightarrow> real" where
  "sleep_for (RateLimitError _ (Some retry_after)) delay =
     (if retry_after \<noteq> 0 then min retry_after MAX_DELAY else min delay MAX_DELAY)"
| "sleep_for _ delay = min delay MAX_DELAY"

text \<open>
  The \<open>for\<close> loop over \<open>range(max_retries + 1)\<close>, by recursion on the attempts still to
  make. The empty list is the statement after the loop, reached only when the range is
  empty. An exception that is not a \<open>ProviderError\<close> is not caught.
\<close>

fun retry_loop ::
  "('s \<Rightarrow> (exn + 'a) \<times> 's) \<Rightarrow> int \<Rightarrow> int list \<Rightarrow> real \<Rightarrow> exn option \<Rightarrow> 's \<Rightarrow> ('a, 's) retry_run" where
  "retry_loop func max_retries [] delay last_error s =
     \<lparr>outcome = Inl (case last_error of
                       Some e \<Rightarrow> e
                     | None \<Rightarrow> ProviderError ''Unknown error after retries'' 500 True),
      final_state = s, calls = 0, sleeps = []\<rparr>"
| "retry_loop func max_retries (attempt # rest) delay last_error s =
     (case func s of
        (Inr v, s') \<Rightarrow> stop (Inr v) s'
      | (Inl e, s') \<Rightarrow>
          if \<not> is_provider_error e then stop (Inl e) s'
          else if \<not> retriable e then stop (Inl e) s'
          else if attempt < max_retries then
            (let r = retry_loop func max_retries rest (min (delay * 2) MAX_DELAY) (Some e) s'
             in r\<lparr>calls := Suc (calls r), sleeps := sleep_for e delay # sleeps r\<rparr>)
          else stop (Inl e) s')"

definition with_retry :: "('s \<Rightarrow> (exn + 'a) \<times> 's) \<Rightarrow> int \<Rightarrow> 's \<Rightarrow> ('a, 's) retry_run" where
  "with_retry func max_retries s =
     retry_loop func max_retries [0..max_retries] BASE_DELAY None s"

text \<open>
  The result of the \<open>i\<close>-th further call of an operation (counted from 0) when it is
  called again and again from state \<open>s\<close>, and the two kinds of provider failure.
\<close>

fun state_after :: "('s \<Rightarrow> (exn + 'a) \<times> 's) \<Rightarrow> 's \<Rightarrow> nat \<Rightarrow> 's" where
  "state_after func s 0 = s"
| "state_after func s (Suc n) = state_after func (snd (func s)) n"

definition call_result :: "('s \<Rightarrow> (exn + 'a) \<times> 's) \<Rightarrow> 's \<Rightarrow> nat \<Rightarrow> exn + 'a" where
  "call_result func s i = fst (func (state_after func s i))"

definition retriable_failure :: "exn + 'a \<Rightarrow> bool" where
  "retriable_failure r = (case r of Inl e \<Rightarrow> is_provider_error e \<and> retriable e | Inr _ \<Rightarrow> False)"

definition permanent_failure :: "exn + 'a \<Rightarrow> bool" where
  "permanent_failure r = (case r of Inl e \<Rightarrow> is_provider_error e \<and> \<not> retriable e | Inr _ \<Rightarrow> False)"

text \<open>A scripted operation, for concrete runs: each call returns the next result of the list.\<close>

fun play :: "(exn + 'a) list \<Rightarrow> (exn + 'a) \<times> (exn + 'a) list" where
  "play [] = (Inl (OtherException ''script exhausted''), [])"
| "play (r # rs) = (r, rs)"

text \<open>The retry-after hint a failure carries, as the wrapper reads it: a non-zero number.\<close>

fun retry_hint :: "exn \<Rightarrow> real option" where
  "retry_hint (RateLimitError _ (Some hint)) = (if hint \<noteq> 0 then Some hint else None)"
| "retry_hint _ = None"

definition hint_of :: "exn + 'a \<Rightarrow> real option" where
  "hint_of r = (case r of Inl e \<Rightarrow> retry_hint e | Inr _ \<Rightarrow> None)"

definition script_two_failures :: "(exn + string) list" where
  "script_two_failures =
     [Inl (RateLimitError ''Rate limited'' (Some 5)),
      Inl (ProviderError ''unavailable'' 503 True),
      Inr ''po_1'']"

definition script_permanent :: "(exn + string) list" where
  "script_permanent = [Inl (PermanentError ''invalid account'' 400), Inr ''po_1'']"

definition script_always_failing :: "(exn + string) list" where
  "script_always_failing = replicate 7 (Inl (ProviderError ''unavailable'' 503 True))"

definition script_zero_hint :: "(exn + string) list" where
  "script_zero_hint = [Inl (RateLimitError ''Rate limited'' (Some 0)), Inr ''po_1'']"

section \<open>Records (app/models/payout.py, app/providers/base.py)\<close>

text \<open>
  The columns the orchestrator reads or writes. Creation and update timestamps are left
  out. A column whose name is also a field of another record carries the record's name as
  a prefix.
\<close>

record Investor =
  inv_id :: string
  inv_name :: string
  inv_country :: "string option"
  inv_payment_method :: "string option"
  inv_external_account_id :: "string option"
  inv_has_aba_routing :: "int option"

record LiquidationEvent =
  event_id :: string
  event_name :: string
  total_amount :: real
  payout_date :: "string option"

record PayoutRun =
  run_ident :: string
  run_event_id :: string
  run_status :: RunStatus
  created_count :: nat
  skipped_count :: nat
  failed_count :: nat
  skip_breakdown :: "(SkipReason \<times> nat) list option"

record Payout =
  payout_id :: string
  run_id :: "string option"
  liquidation_event_id :: string
  investor_id :: string
  investor_name :: "string option"
  amount :: real
  payout_currency :: "string option"
  country :: "string option"
  payment_method :: "string option"
  has_aba_routing :: "int option"
  external_account_id :: "string option"
  rail :: "string option"
  rail_subtype :: "string option"
  rail_currency :: "string option"
  payout_fx_indicator :: "string option"
  status :: PayoutStatus
  payout_skip_reason :: "SkipReason option"
  payment_order_id :: "string option"
  payment_order_type :: "string option"
  payout_notes :: "string option"

text \<open>An audit row: the action and the two references. The details are not modelled.\<close>

record AuditLog =
  action :: string
  audit_run_id :: "string option"
  audit_payout_id :: "string option"

record PaymentOrderRequest =
  request_payment_type :: string
  request_subtype :: "string option"
  amount_cents :: int
  request_currency :: string
  direction :: string
  originating_account_id :: string
  receiving_account_id :: string
  effective_date :: "string option"
  description :: string
  statement_descriptor :: string
  request_purpose :: "string option"
  request_fx_indicator :: "string option"
  metadata :: "(string \<times> string) list"

record PaymentOrderResponse =
  response_payment_order_id :: string
  response_status :: string
  provider_name :: string
  response_message :: string

text \<open>
  The stored tables. A payout row is identified by its pair of event and investor, which
  the constraint \<open>uq_event_investor\<close> keeps unique (so the dictionary keyed by investor that
  \<open>execute_run\<close> builds has one row per key); investors are a list in the order the query
  returns them, their identifiers being the primary key.
\<close>

record Database =
  events :: "LiquidationEvent list"
  investors :: "Investor list"
  payouts :: "Payout list"
  runs :: "PayoutRun list"
  audit_logs :: "AuditLog list"

text \<open>
  What a run takes from outside: the provider's \<open>create_payment_order\<close> as a step
  function on the state of the outside world, the formatted UTC time at which the
  \<open>i\<close>-th payout of the run gets its note, the identifiers drawn with \<open>uuid4\<close> for the
  run and for a new payout row (by investor; they are taken to be fresh, so no primary key
  clashes), the float formatter, and whether the commit writes its rows in an order that
  lets two of them meet on one order id (see \<open>commit_ok\<close>).
\<close>

record 'w Env =
  create_payment_order :: "PaymentOrderRequest \<Rightarrow> 'w \<Rightarrow> (exn + PaymentOrderResponse) \<times> 'w"
  clock :: "nat \<Rightarrow> string"
  run_uuid :: string
  payout_uuid :: "string \<Rightarrow> string"
  float_str :: "real \<Rightarrow> string"
  clashing_write_order :: bool


section \<open>Audit trail (app/audit/logger.py)\<close>

definition log_event :: "string \<Rightarrow> string option \<Rightarrow> string option \<Rightarrow> AuditLog" where
  "log_event act rid pid = \<lparr>action = act, audit_run_id = rid, audit_payout_id = pid\<rparr>"

text \<open>\<open>ts\<close> is the text of \<open>strftime('%Y-%m-%d %H:%M UTC')\<close> at the call.\<close>

definition append_note :: "string \<Rightarrow> string option \<Rightarrow> string \<Rightarrow> string" where
  "append_note ts existing_notes msg =
     (let prefix = ''['' @ ts @ ''] '';
          new_note = prefix @ msg
      in if \<not> truthy existing_notes then new_note
         else the existing_notes @ [CHR 0x0A] @ new_note)"


section \<open>Orchestrator (app/engine/orchestrator.py)\<close>

definition cents :: "real \<Rightarrow> int" where
  "cents a = py_round (a * 100)"

text \<open>\<open>bool(payout.has_aba_routing)\<close> on a nullable integer column.\<close>

definition py_bool :: "int option \<Rightarrow> bool" where
  "py_bool x = (case x of None \<Rightarrow> False | Some n \<Rightarrow> n \<noteq> 0)"

datatype Outcome = created | skipped | failed

record 'w Processed =
  verdict :: Outcome
  payout_after :: Payout
  entries :: "AuditLog list"
  world :: 'w
  requests :: "PaymentOrderRequest list"

definition build_request :: "RailDecision \<Rightarrow> Payout \<Rightarrow> LiquidationEvent \<Rightarrow> PaymentOrderRequest" where
  "build_request rd payout event =
     \<lparr>request_payment_type = payment_type rd,
      request_subtype = subtype rd,
      amount_cents = cents (amount payout),
      request_currency = currency rd,
      direction = ''credit'',
      originating_account_id = ''internal_usd_001'',
      receiving_account_id = or_else (external_account_id payout) '''',
      effective_date = payout_date event,
      description = ''Payout to '' @ or_else (investor_name payout) (investor_id payout),
      statement_descriptor = take 10 (investor_id payout),
      request_purpose = purpose rd,
      request_fx_indicator = fx_indicator rd,
      metadata = [(''event_id'', liquidation_event_id payout),
                  (''investor_id'', investor_id payout),
                  (''country'', or_else (country payout) '''')]\<rparr>"

text \<open>
  Step 1 of \<open>_process_single_payout\<close>: the call of \<open>check_eligibility\<close> on the payout's
  current fields and order id. The amount column is not nullable.
\<close>

definition gate :: "(real \<Rightarrow> string) \<Rightarrow> Payout \<Rightarrow> EligibilityResult" where
  "gate fmt payout =
     check_eligibility fmt (payment_method payout) (Some (amount payout))
       (external_account_id payout) (country payout) (payment_order_id payout)"

text \<open>
  The per-payout transition. It returns the string the source returns (\<open>verdict\<close>), the
  payout as mutated, the audit rows added, the outside state after the provider calls and
  the requests passed to the provider, one for each call the retry wrapper made. The three
  handlers are in the source's order: \<open>PermanentError\<close>, then the other provider errors,
  then any other exception.
\<close>

definition process_single_payout ::
  "'w Env \<Rightarrow> string \<Rightarrow> PayoutRun \<Rightarrow> Payout \<Rightarrow> LiquidationEvent \<Rightarrow> 'w \<Rightarrow> 'w Processed" where
  "process_single_payout env ts run payout event w =
     (let result = gate (float_str env) payout;
          rid = Some (run_ident run);
          pid = Some (payout_id payout)
      in if \<not> eligible result then
           \<lparr>verdict = skipped,
            payout_after = payout
              \<lparr>status := SKIPPED,
               payout_skip_reason := skip_reason result,
               payout_notes := Some (append_note ts (payout_notes payout) (''Skipped: '' @ message result))\<rparr>,
            entries = [log_event ''eligibility_failed'' rid pid],
            world = w,
            requests = []\<rparr>
         else
           (let rd = select_rail (country payout) (payment_method payout)
                       (py_bool (has_aba_routing payout));
                routed = payout
                  \<lparr>rail := Some (or_else (subtype rd) (payment_type rd)),
                   rail_subtype := subtype rd,
                   rail_currency := Some (currency rd),
                   payout_fx_indicator := fx_indicator rd,
                   payment_order_type := Some (label rd)\<rparr>;
                selected = log_event ''rail_selected'' rid pid;
                request = build_request rd routed event;
                attempt = with_retry (create_payment_order env request) MAX_RETRIES w;
                sent = replicate (calls attempt) request
            in case outcome attempt of
                 Inr response \<Rightarrow>
                   \<lparr>verdict = created,
                    payout_after = routed
                      \<lparr>payment_order_id := Some (response_payment_order_id response),
                       status := COMPLETED,
                       payout_notes := Some (append_note ts (payout_notes routed)
                         (''Payment order created: '' @ response_payment_order_id response))\<rparr>,
                    entries = [selected, log_event ''payment_created'' rid pid],
                    world = final_state attempt,
                    requests = sent\<rparr>
               | Inl (PermanentError m c) \<Rightarrow>
                   \<lparr>verdict = failed,
                    payout_after = routed
                      \<lparr>status := FAILED,
                       payout_notes := Some (append_note ts (payout_notes routed)
                         (''Permanent failure: '' @ m))\<rparr>,
                    entries = [selected, log_event ''payment_failed_permanent'' rid pid],
                    world = final_state attempt,
                    requests = sent\<rparr>
               | Inl (OtherException m) \<Rightarrow>
                   \<lparr>verdict = failed,
                    payout_after = routed
                      \<lparr>status := FAILED,
                       payout_notes := Some (append_note ts (payout_notes routed)
                         (''Unexpected error: '' @ m))\<rparr>,
                    entries = [selected, log_event ''payment_failed_unexpected'' rid pid],
                    world = final_state attempt,
                    requests = sent\<rparr>
               | Inl e \<Rightarrow>
                   \<lparr>verdict = failed,
                    payout_after = routed
                      \<lparr>status := FAILED,
                       payout_notes := Some (append_note ts (payout_notes routed)
                         (''Provider error after retries: '' @ str_exn e))\<rparr>,
                    entries = [selected, log_event ''payment_failed_retries_exhausted'' rid pid],
                    world = final_state attempt,
                    requests = sent\<rparr>))"

text \<open>
  The loop of \<open>execute_run\<close> that makes sure every investor has a payout: an existing
  row is attached to the run unless it is completed or skipped, a missing one is created.
\<close>

definition find_payout :: "string \<Rightarrow> string \<Rightarrow> Payout list \<Rightarrow> Payout option" where
  "find_payout eid iid rows =
     find (\<lambda>p. liquidation_event_id p = eid \<and> investor_id p = iid) rows"

definition ensure_payout ::
  "'w Env \<Rightarrow> PayoutRun \<Rightarrow> LiquidationEvent \<Rightarrow> Database \<Rightarrow> Investor \<Rightarrow> Payout" where
  "ensure_payout env run event db investor =
     (case find_payout (run_event_id run) (inv_id investor) (payouts db) of
        Some payout \<Rightarrow>
          if status payout \<notin> {COMPLETED, SKIPPED}
          then payout\<lparr>run_id := Some (run_ident run)\<rparr>
          else payout
      | None \<Rightarrow>
          (let share = total_amount event / of_nat (max (length (investors db)) 1)
           in \<lparr>payout_id = payout_uuid env (inv_id investor),
               run_id = Some (run_ident run),
               liquidation_event_id = run_event_id run,
               investor_id = inv_id investor,
               investor_name = Some (inv_name investor),
               amount = py_round2 share,
               payout_currency = Some ''USD'',
               country = inv_country investor,
               payment_method = inv_payment_method investor,
               has_aba_routing = inv_has_aba_routing investor,
               external_account_id = inv_external_account_id investor,
               rail = None,
               rail_subtype = None,
               rail_currency = None,
               payout_fx_indicator = None,
               status = PENDING,
               payout_skip_reason = None,
               payment_order_id = None,
               payment_order_type = None,
               payout_notes = None\<rparr>))"

text \<open>\<open>skip_counts[reason] += 1\<close> on a \<open>Counter\<close>, kept in insertion order.\<close>

definition bump :: "SkipReason \<Rightarrow> (SkipReason \<times> nat) list \<Rightarrow> (SkipReason \<times> nat) list" where
  "bump k cs =
     (case map_of cs k of
        None \<Rightarrow> cs @ [(k, 1)]
      | Some n \<Rightarrow> map (\<lambda>(k', v). if k' = k then (k', v + 1) else (k', v)) cs)"

text \<open>The processing loop, with everything it accumulates.\<close>

record 'w Tally =
  successes :: nat
  skips :: nat
  failures :: nat
  skip_counts :: "(SkipReason \<times> nat) list"
  processed :: "Payout list"
  logged :: "AuditLog list"
  outside :: 'w
  submitted :: "PaymentOrderRequest list"

definition record_outcome :: "'w Processed \<Rightarrow> 'w Tally \<Rightarrow> 'w Tally" where
  "record_outcome r t =
     (let t' = t\<lparr>processed := processed t @ [payout_after r],
                   logged := logged t @ entries r,
                   outside := world r,
                   submitted := submitted t @ requests r\<rparr>
      in case verdict r of
           created \<Rightarrow> t'\<lparr>successes := successes t' + 1\<rparr>
         | skipped \<Rightarrow>
             t'\<lparr>skips := skips t' + 1,
                skip_counts := (case payout_skip_reason (payout_after r) of
                                  Some reason \<Rightarrow> bump reason (skip_counts t')
                                | None \<Rightarrow> skip_counts t')\<rparr>
         | failed \<Rightarrow> t'\<lparr>failures := failures t' + 1\<rparr>)"

fun process_payouts ::
  "'w Env \<Rightarrow> PayoutRun \<Rightarrow> LiquidationEvent \<Rightarrow> nat \<Rightarrow> Payout list \<Rightarrow> 'w Tally \<Rightarrow> 'w Tally" where
  "process_payouts env run event i [] t = t"
| "process_payouts env run event i (payout # rest) t =
     process_payouts env run event (Suc i) rest
       (record_outcome (process_single_payout env (clock env i) run payout event (outside t)) t)"

text \<open>
  The commit at the end of \<open>execute_run\<close>, the only place where the payouts of a run
  are written. A processed payout replaces its row, or is added as a new one.
\<close>

fun store_payout :: "Payout \<Rightarrow> Payout list \<Rightarrow> Payout list" where
  "store_payout p [] = [p]"
| "store_payout p (q # rows) =
     (if liquidation_event_id q = liquidation_event_id p \<and> investor_id q = investor_id p
      then p # rows
      else q # store_payout p rows)"

definition commit_payouts :: "Payout list \<Rightarrow> Payout list \<Rightarrow> Payout list" where
  "commit_payouts rows changed = foldl (\<lambda>rows p. store_payout p rows) rows changed"

text \<open>
  The column \<open>payment_order_id\<close> is declared \<open>unique=True\<close>: a write that gives two
  rows the same non-null order id raises \<open>IntegrityError\<close> out of \<open>session.commit()\<close>,
  and then nothing of the run is stored. So the commit fails when the table it would leave
  holds one non-null order id twice. It also fails when a row is written with an order id
  that another row still holds at that moment, although that other row is rewritten later
  by the same commit; the source does not fix the order of the writes, so whether this
  happens is the input \<open>clashing_write_order\<close>. \<open>order_id_free\<close> says that the order id
  a payout is written with is the one its row had already, or one that no stored row holds
  when the commit starts.
\<close>

datatype RunError = IntegrityError

definition order_ids :: "Payout list \<Rightarrow> string list" where
  "order_ids rows =
     concat (map (\<lambda>p. case payment_order_id p of None \<Rightarrow> [] | Some oid \<Rightarrow> [oid]) rows)"

definition stored_order_id :: "Payout list \<Rightarrow> Payout \<Rightarrow> string option" where
  "stored_order_id rows p =
     (case find_payout (liquidation_event_id p) (investor_id p) rows of
        None \<Rightarrow> None
      | Some r \<Rightarrow> payment_order_id r)"

definition order_id_free :: "Payout list \<Rightarrow> Payout \<Rightarrow> bool" where
  "order_id_free rows p =
     (case payment_order_id p of
        None \<Rightarrow> True
      | Some oid \<Rightarrow> stored_order_id rows p = Some oid \<or> oid \<notin> set (order_ids rows))"

definition commit_ok :: "bool \<Rightarrow> Payout list \<Rightarrow> Payout list \<Rightarrow> bool" where
  "commit_ok clashing rows changed =
     (distinct (order_ids (commit_payouts rows changed))
      \<and> (list_all (order_id_free rows) changed \<or> \<not> clashing))"

text \<open>
  What a call of \<open>execute_run\<close> leaves: the exception that propagates, if any; the
  \<open>PayoutRun\<close> object of the call, which is what the call returns when nothing is raised;
  the stored tables; the state of the outside world; the requests passed to the provider.
\<close>

record 'w RunResult =
  raised :: "RunError option"
  run_row :: PayoutRun
  db_after :: Database
  world_after :: 'w
  requests_sent :: "PaymentOrderRequest list"

definition new_run :: "'w Env \<Rightarrow> string \<Rightarrow> PayoutRun" where
  "new_run env eid =
     \<lparr>run_ident = run_uuid env, run_event_id = eid, run_status = RUN_RUNNING,
      created_count = 0, skipped_count = 0, failed_count = 0, skip_breakdown = None\<rparr>"

definition empty_tally :: "'w \<Rightarrow> 'w Tally" where
  "empty_tally w =
     \<lparr>successes = 0, skips = 0, failures = 0, skip_counts = [], processed = [], logged = [],
      outside = w, submitted = []\<rparr>"

definition execute_run :: "'w Env \<Rightarrow> Database \<Rightarrow> string \<Rightarrow> 'w \<Rightarrow> 'w RunResult" where
  "execute_run env db eid w =
     (let run0 = new_run env eid;
          started = log_event ''run_started'' (Some (run_ident run0)) None
      in case find (\<lambda>e. event_id e = eid) (events db) of
           None \<Rightarrow>
             (let run1 = run0\<lparr>run_status := RUN_FAILED\<rparr>
              in \<lparr>raised = None,
                  run_row = run1,
                  db_after = db
                    \<lparr>runs := runs db @ [run1],
                     audit_logs := audit_logs db
                       @ [started, log_event ''run_failed'' (Some (run_ident run0)) None]\<rparr>,
                  world_after = w,
                  requests_sent = []\<rparr>)
         | Some event \<Rightarrow>
             (let todo = map (ensure_payout env run0 event db) (investors db);
                  t = process_payouts env run0 event 0 todo (empty_tally w);
                  run1 = run0
                    \<lparr>created_count := successes t,
                     skipped_count := skips t,
                     failed_count := failures t,
                     skip_breakdown := (if skip_counts t \<noteq> [] then Some (skip_counts t) else None),
                     run_status := RUN_COMPLETED\<rparr>
              in if commit_ok (clashing_write_order env) (payouts db) (processed t) then
                   \<lparr>raised = None,
                    run_row = run1,
                    db_after = db
                      \<lparr>payouts := commit_payouts (payouts db) (processed t),
                       runs := runs db @ [run1],
                       audit_logs := audit_logs db @ [started] @ logged t
                         @ [log_event ''run_completed'' (Some (run_ident run0)) None]\<rparr>,
                    world_after = outside t,
                    requests_sent = submitted t\<rparr>
                 else
                   \<lparr>raised = Some IntegrityError,
                    run_row = run1,
                    db_after = db,
                    world_after = outside t,
                    requests_sent = submitted t\<rparr>))"


section \<open>Notions used to state the properties of a run\<close>

text \<open>\<open>q\<close> is what the per-payout transition makes of \<open>p\<close>, at some time and outside state.\<close>

definition came_from :: "'w Env \<Rightarrow> PayoutRun \<Rightarrow> LiquidationEvent \<Rightarrow> Payout \<Rightarrow> Payout \<Rightarrow> bool" where
  "came_from env run ev p q =
     (\<exists>ts w. q = payout_after (process_single_payout env ts run p ev w))"

text \<open>The processing loop of a run that has found its event.\<close>

definition run_tally :: "'w Env \<Rightarrow> Database \<Rightarrow> string \<Rightarrow> LiquidationEvent \<Rightarrow> 'w \<Rightarrow> 'w Tally" where
  "run_tally env db eid ev w =
     process_payouts env (new_run env eid) ev 0
       (map (ensure_payout env (new_run env eid) ev db) (investors db)) (empty_tally w)"

text \<open>A provider whose every call succeeds and returns a non-empty order id.\<close>

definition succeeds_with_order_id :: "'w Env \<Rightarrow> bool" where
  "succeeds_with_order_id env =
     (\<forall>request w. \<exists>response w'.
        create_payment_order env request w = (Inr response, w')
        \<and> response_payment_order_id response \<noteq> [])"

text \<open>Two runs against the same event, the second on what the first left behind.\<close>

definition run_twice :: "'w Env \<Rightarrow> 'w Env \<Rightarrow> Database \<Rightarrow> string \<Rightarrow> 'w \<Rightarrow> 'w RunResult" where
  "run_twice env1 env2 db eid w =
     (let first = execute_run env1 db eid w
      in execute_run env2 (db_after first) eid (world_after first))"


section \<open>Concrete data for the examples\<close>

definition demo_fmt :: "real \<Rightarrow> string" where
  "demo_fmt x = (if x = 0 then ''0.0'' else ''<float>'')"

definition demo_event :: LiquidationEvent where
  "demo_event = \<lparr>event_id = ''LIQ-TEST-001'', event_name = ''Test Liquidation'',
     total_amount = 300000, payout_date = Some ''2024-12-15''\<rparr>"

definition demo_investors :: "Investor list" where
  "demo_investors =
    [\<lparr>inv_id = ''INV-001'', inv_name = ''John Smith'', inv_country = Some ''US'',
      inv_payment_method = Some ''ACH'', inv_external_account_id = Some ''ext_us_001'',
      inv_has_aba_routing = Some 0\<rparr>,
     \<lparr>inv_id = ''INV-010'', inv_name = ''Hans Mueller'', inv_country = Some ''DE'',
      inv_payment_method = Some ''ACH'', inv_external_account_id = Some ''ext_de_001'',
      inv_has_aba_routing = Some 0\<rparr>,
     \<lparr>inv_id = ''INV-060'', inv_name = ''Ghost Investor'', inv_country = Some ''US'',
      inv_payment_method = Some ''ACH'', inv_external_account_id = None,
      inv_has_aba_routing = Some 0\<rparr>]"

definition demo_db :: Database where
  "demo_db = \<lparr>events = [demo_event], investors = demo_investors, payouts = [], runs = [],
     audit_logs = []\<rparr>"

definition demo_provider :: "PaymentOrderRequest \<Rightarrow> nat \<Rightarrow> (exn + PaymentOrderResponse) \<times> nat" where
  "demo_provider request n =
     (Inr \<lparr>response_payment_order_id = ''po_'' @ request_payment_type request @ ''_''
             @ statement_descriptor request,
           response_status = ''pending'', provider_name = ''mock_provider'',
           response_message = ''''\<rparr>,
      Suc n)"

definition demo_env :: "string \<Rightarrow> nat Env" where
  "demo_env rid =
     \<lparr>create_payment_order = demo_provider, clock = (\<lambda>i. ''2024-12-15 10:00 UTC''),
      run_uuid = rid, payout_uuid = (\<lambda>iid. ''p-'' @ iid), float_str = demo_fmt,
      clashing_write_order = True\<rparr>"

definition demo_first :: "nat RunResult" where
  "demo_first = execute_run (demo_env ''run-1'') demo_db ''LIQ-TEST-001'' 0"

definition demo_second :: "nat RunResult" where
  "demo_second =
     execute_run (demo_env ''run-2'') (db_after demo_first) ''LIQ-TEST-001''
       (world_after demo_first)"

text \<open>
  Stored payouts for the examples: one completed earlier with an order id, one that failed
  earlier, one completed earlier for an investor no longer in the investors table, and the
  completed one with an empty string as its order id.
\<close>

definition demo_paid_payout :: Payout where
  "demo_paid_payout =
     \<lparr>payout_id = ''p-INV-001'', run_id = Some ''run-1'',
      liquidation_event_id = ''LIQ-TEST-001'', investor_id = ''INV-001'',
      investor_name = Some ''John Smith'', amount = 100000, payout_currency = Some ''USD'',
      country = Some ''US'', payment_method = Some ''ACH'', has_aba_routing = Some 0,
      external_account_id = Some ''ext_us_001'', rail = Some ''CCD'',
      rail_subtype = Some ''CCD'', rail_currency = Some ''USD'', payout_fx_indicator = None,
      status = COMPLETED, payout_skip_reason = None,
      payment_order_id = Some ''po_ach_INV-001'', payment_order_type = Some ''ACH (US)'',
      payout_notes = None\<rparr>"

definition demo_failed_payout :: Payout where
  "demo_failed_payout =
     \<lparr>payout_id = ''p-INV-010'', run_id = Some ''run-1'',
      liquidation_event_id = ''LIQ-TEST-001'', investor_id = ''INV-010'',
      investor_name = Some ''Hans Mueller'', amount = 100000, payout_currency = Some ''USD'',
      country = Some ''DE'', payment_method = Some ''ACH'', has_aba_routing = Some 0,
      external_account_id = Some ''ext_de_001'', rail = Some ''sepa'',
      rail_subtype = Some ''sepa'', rail_currency = Some ''EUR'',
      payout_fx_indicator = Some ''fixed_to_variable'',
      status = FAILED, payout_skip_reason = None,
      payment_order_id = None, payment_order_type = Some ''Cross-Border SEPA (EUR)'',
      payout_notes = None\<rparr>"

definition demo_orphan_payout :: Payout where
  "demo_orphan_payout =
     demo_paid_payout
       \<lparr>payout_id := ''p-INV-999'', investor_id := ''INV-999'',
        investor_name := Some ''Former Investor'',
        payment_order_id := Some ''po_ach_INV-999''\<rparr>"

definition demo_paid_db :: Database where
  "demo_paid_db =
     demo_db\<lparr>payouts := [demo_paid_payout, demo_failed_payout, demo_orphan_payout]\<rparr>"

text \<open>A provider that succeeds with the same order id at every call.\<close>

definition demo_repeating_provider ::
  "PaymentOrderRequest \<Rightarrow> nat \<Rightarrow> (exn + PaymentOrderResponse) \<times> nat" where
  "demo_repeating_provider request n =
     (Inr \<lparr>response_payment_order_id = ''po_1'', response_status = ''pending'',
           provider_name = ''mock_provider'', response_message = ''''\<rparr>,
      Suc n)"

definition demo_repeating_env :: "string \<Rightarrow> nat Env" where
  "demo_repeating_env rid = (demo_env rid)\<lparr>create_payment_order := demo_repeating_provider\<rparr>"

definition demo_blank_payout :: Payout where
  "demo_blank_payout = demo_paid_payout\<lparr>payment_order_id := Some []\<rparr>"

definition demo_blank_db :: Database where
  "demo_blank_db = demo_db\<lparr>payouts := [demo_blank_payout]\<rparr>"


section \<open>Properties of the eligibility gate\<close>

lemma truthy_simps [simp]:
  "truthy None = False" "truthy (Some s) = (s \<noteq> [])"
  by (simp_all add: truthy_def)

lemma check_eligibility_fields:
  "(eligible (check_eligibility fmt pm amt ext c oid),
    skip_reason (check_eligibility fmt pm amt ext c oid)) = gate_spec pm amt ext c oid"
  by (cases oid; cases pm; cases amt; cases ext; cases c)
     (auto simp: check_eligibility_def gate_spec_def order_id_set_def method_invalid_def
        amount_invalid_def absent_or_empty_def ALLOWED_METHODS_def)

text \<open>
  C4. For all inputs the gate's verdict and reason are those of the five checks taken in
  the fixed order existing order id, method, amount, external account, country, the first
  failing check giving the reason; in particular an input with an invalid method and an
  existing order id is refused for EXISTING_PAYMENT_ORDER.
\<close>

theorem check_eligibility_order:
  "(eligible (check_eligibility fmt pm amt ext c oid),
    skip_reason (check_eligibility fmt pm amt ext c oid)) = gate_spec pm amt ext c oid
   \<and> (method_invalid pm \<and> order_id_set oid \<longrightarrow>
        skip_reason (check_eligibility fmt pm amt ext c oid) = Some EXISTING_PAYMENT_ORDER)"
proof -
  have "order_id_set oid \<Longrightarrow> gate_spec pm amt ext c oid = (False, Some EXISTING_PAYMENT_ORDER)"
    by (simp add: gate_spec_def)
  then show ?thesis
    using check_eligibility_fields [of fmt pm amt ext c oid] by auto
qed

theorem check_eligibility_order_witness:
  "method_invalid (Some ''Crypto'') \<and> order_id_set (Some ''po_123'')
   \<and> skip_reason (check_eligibility demo_fmt (Some ''Crypto'') (Some 1000) (Some ''ext_001'')
         (Some ''US'') (Some ''po_123'')) = Some EXISTING_PAYMENT_ORDER
   \<and> gate_spec (Some ''ACH'') (Some 1000) None (Some ''US'') None
         = (False, Some MISSING_EXTERNAL_ACCOUNT)"
proof -
  have h: "method_invalid (Some ''Crypto'') \<and> order_id_set (Some ''po_123'')"
    by (simp add: method_invalid_def order_id_set_def)
  have g: "gate_spec (Some ''ACH'') (Some 1000) None (Some ''US'') None
         = (False, Some MISSING_EXTERNAL_ACCOUNT)"
    by (simp add: gate_spec_def method_invalid_def order_id_set_def amount_invalid_def
        absent_or_empty_def)
  show ?thesis
    using h g
      check_eligibility_order [of demo_fmt "Some ''Crypto''" "Some 1000" "Some ''ext_001''"
        "Some ''US''" "Some ''po_123''"]
    by blast
qed

text \<open>
  C10. The idempotency guard fires exactly when the existing order id is a non-empty
  string: the empty string is treated like an absent id, and a payout whose order id is the
  empty string can be found eligible.
\<close>

theorem empty_order_id_like_absent:
  "(skip_reason (check_eligibility fmt pm amt ext c oid) = Some EXISTING_PAYMENT_ORDER
      \<longleftrightarrow> (\<exists>s. oid = Some s \<and> s \<noteq> []))
   \<and> check_eligibility fmt pm amt ext c (Some []) = check_eligibility fmt pm amt ext c None
   \<and> eligible (check_eligibility fmt (Some ''ACH'') (Some 1000) (Some ''ext_001'')
         (Some ''US'') (Some []))"
  by (cases oid) (auto simp: check_eligibility_def ALLOWED_METHODS_def split: option.splits)

theorem empty_order_id_like_absent_witness:
  "skip_reason (check_eligibility demo_fmt (Some ''ACH'') (Some 1000) (Some ''ext_001'')
       (Some ''US'') (Some ''po_123'')) = Some EXISTING_PAYMENT_ORDER
   \<and> skip_reason (check_eligibility demo_fmt (Some ''ACH'') (Some 1000) (Some ''ext_001'')
       (Some ''US'') (Some [])) \<noteq> Some EXISTING_PAYMENT_ORDER
   \<and> check_eligibility demo_fmt (Some ''Crypto'') None None None (Some [])
       = check_eligibility demo_fmt (Some ''Crypto'') None None None None"
  using empty_order_id_like_absent [of demo_fmt "Some ''ACH''" "Some 1000" "Some ''ext_001''"
      "Some ''US''" "Some ''po_123''"]
    empty_order_id_like_absent [of demo_fmt "Some ''ACH''" "Some 1000" "Some ''ext_001''"
      "Some ''US''" "Some []"]
    empty_order_id_like_absent [of demo_fmt "Some ''ACH''" "Some 1000" "Some ''ext_001''"
      "Some ''US''" None]
    empty_order_id_like_absent [of demo_fmt "Some ''Crypto''" None None None None]
  by simp


section \<open>Properties of rail selection\<close>

lemma table_has_currency:
  "map_of GLOBAL_ACH_MAP k = Some cfg \<Longrightarrow> cfg_currency cfg \<noteq> None"
  by (drule map_of_SomeD) (auto simp: GLOBAL_ACH_MAP_def cross_border_def)

text \<open>
  C9. The rail decision does not depend on the payment method: two calls that differ only
  in that argument return the same decision.
\<close>

theorem select_rail_ignores_method:
  "select_rail country_code m1 has_aba = select_rail country_code m2 has_aba"
  by (simp add: select_rail_def)

text \<open>
  C5, as stated on the country argument itself: the lower-case code \<open>de\<close> is neither
  \<open>US\<close> nor a key of the table, so the stated rules give the wire fallback; the code
  normalises the argument first and selects the cross-border SEPA rail.
\<close>

theorem select_rail_raw_country_counterexample:
  "''de'' \<noteq> ''US'' \<and> map_of GLOBAL_ACH_MAP ''de'' = None
   \<and> payment_type (select_rail (Some ''de'') None False) = ''cross_border''
   \<and> subtype (select_rail (Some ''de'') None False) = Some ''sepa''"
  by (simp add: select_rail_def normalise_country_def or_else_def strip_def is_space_def
      upper_def upper_char_def GLOBAL_ACH_MAP_def cross_border_def)

text \<open>
  C5, amended. With \<open>country\<close> read as the normalised country argument (absent taken
  as empty, surrounding whitespace stripped, upper-cased), the rules apply in the fixed
  priority order: (1) bank-capability flag and country not US: domestic ACH, CCD, USD, no
  FX indicator; (2) country US: the same, whatever the method; (3) country in the table: a
  cross-border decision with the entry's subtype, currency and purpose code and the
  fixed-source-currency FX indicator; (4) otherwise the wire fallback, USD, no subtype, no
  FX indicator.
\<close>

theorem select_rail_priority:
  "(has_aba \<and> normalise_country cc \<noteq> ''US'' \<or> normalise_country cc = ''US'' \<longrightarrow>
      payment_type (select_rail cc pm has_aba) = ''ach''
      \<and> subtype (select_rail cc pm has_aba) = Some ''CCD''
      \<and> currency (select_rail cc pm has_aba) = ''USD''
      \<and> fx_indicator (select_rail cc pm has_aba) = None)
   \<and> (\<not> has_aba \<and> normalise_country cc \<noteq> ''US''
        \<and> map_of GLOBAL_ACH_MAP (normalise_country cc) = Some cfg \<longrightarrow>
      payment_type (select_rail cc pm has_aba) = ''cross_border''
      \<and> subtype (select_rail cc pm has_aba) = Some (cfg_subtype cfg)
      \<and> Some (currency (select_rail cc pm has_aba)) = cfg_currency cfg
      \<and> purpose (select_rail cc pm has_aba) = cfg_purpose cfg
      \<and> fx_indicator (select_rail cc pm has_aba) = Some ''fixed_to_variable'')
   \<and> (\<not> has_aba \<and> normalise_country cc \<noteq> ''US''
        \<and> map_of GLOBAL_ACH_MAP (normalise_country cc) = None \<longrightarrow>
      payment_type (select_rail cc pm has_aba) = ''wire''
      \<and> currency (select_rail cc pm has_aba) = ''USD''
      \<and> subtype (select_rail cc pm has_aba) = None
      \<and> fx_indicator (select_rail cc pm has_aba) = None)"
proof -
  have "map_of GLOBAL_ACH_MAP (normalise_country cc) = Some cfg \<Longrightarrow>
        \<exists>cur. cfg_currency cfg = Some cur"
    using table_has_currency by blast
  then show ?thesis
    by (auto simp: select_rail_def Let_def)
qed

theorem select_rail_priority_witness:
  "subtype (select_rail (Some ''JP'') (Some ''ACH'') True) = Some ''CCD''
   \<and> payment_type (select_rail (Some ''US'') (Some ''Wire'') False) = ''ach''
   \<and> subtype (select_rail (Some ''CA'') None False) = Some ''eft''
   \<and> currency (select_rail (Some ''CA'') None False) = ''CAD''
   \<and> purpose (select_rail (Some ''CA'') None False) = Some ''250''
   \<and> payment_type (select_rail (Some ''AE'') (Some ''Wire'') False) = ''wire''"
proof -
  have n: "normalise_country (Some ''JP'') = ''JP''" "normalise_country (Some ''US'') = ''US''"
    "normalise_country (Some ''CA'') = ''CA''" "normalise_country (Some ''AE'') = ''AE''"
    by (simp_all add: normalise_country_def or_else_def strip_def is_space_def upper_def
        upper_char_def)
  have m: "map_of GLOBAL_ACH_MAP ''CA'' = Some ((cross_border ''eft'' ''CAD'')\<lparr>cfg_purpose := Some ''250''\<rparr>)"
    "map_of GLOBAL_ACH_MAP ''AE'' = None"
    by (simp_all add: GLOBAL_ACH_MAP_def)
  show ?thesis
    using n m
      select_rail_priority [of True "Some ''JP''" "Some ''ACH''"]
      select_rail_priority [of False "Some ''US''" "Some ''Wire''"]
      select_rail_priority [of False "Some ''CA''" None
        "(cross_border ''eft'' ''CAD'')\<lparr>cfg_purpose := Some ''250''\<rparr>"]
      select_rail_priority [of False "Some ''AE''" "Some ''Wire''"]
    by (simp add: cross_border_def)
qed


section \<open>Properties of the retry wrapper\<close>

lemma call_result_0: "call_result func s 0 = fst (func s)"
  by (simp add: call_result_def)

lemma call_result_Suc: "call_result func s (Suc i) = call_result func (snd (func s)) i"
  by (simp add: call_result_def)

lemma retry_loop_success:
  "a + int k \<le> mr \<Longrightarrow> (\<forall>i<k. retriable_failure (call_result func s i)) \<Longrightarrow>
   call_result func s k = Inr v \<Longrightarrow>
   outcome (retry_loop func mr [a..mr] d le s) = Inr v
   \<and> calls (retry_loop func mr [a..mr] d le s) = Suc k
   \<and> final_state (retry_loop func mr [a..mr] d le s) = state_after func s (Suc k)"
proof (induction k arbitrary: a d le s)
  case 0
  then have "[a..mr] = a # [a + 1..mr]" by (simp add: upto_rec1)
  moreover obtain s' where "func s = (Inr v, s')"
    using 0 by (cases "func s") (simp add: call_result_0)
  ultimately show ?case by (simp add: stop_def)
next
  case (Suc k)
  then have l: "[a..mr] = a # [a + 1..mr]" and lt: "a < mr" by (simp_all add: upto_rec1)
  from Suc.prems(2) have "retriable_failure (call_result func s 0)" by blast
  then obtain e s' where f: "func s = (Inl e, s')" and e: "is_provider_error e" "retriable e"
    by (cases "func s") (auto simp: call_result_0 retriable_failure_def split: sum.splits)
  have "\<forall>i<k. retriable_failure (call_result func s' i)"
    using Suc.prems(2) f by (auto simp: call_result_Suc)
  moreover have "call_result func s' k = Inr v"
    using Suc.prems(3) f by (simp add: call_result_Suc)
  moreover have "a + 1 + int k \<le> mr" using Suc.prems(1) by simp
  ultimately have
    "outcome (retry_loop func mr [a + 1..mr] (min (d * 2) MAX_DELAY) (Some e) s') = Inr v
     \<and> calls (retry_loop func mr [a + 1..mr] (min (d * 2) MAX_DELAY) (Some e) s') = Suc k
     \<and> final_state (retry_loop func mr [a + 1..mr] (min (d * 2) MAX_DELAY) (Some e) s')
         = state_after func s' (Suc k)"
    using Suc.IH by blast
  then show ?case using l lt f e by (simp add: Let_def)
qed

lemma retry_loop_exhausted:
  "a \<le> mr \<Longrightarrow> k = nat (mr - a) \<Longrightarrow> (\<forall>i\<le>k. retriable_failure (call_result func s i)) \<Longrightarrow>
   outcome (retry_loop func mr [a..mr] d le s) = call_result func s k
   \<and> calls (retry_loop func mr [a..mr] d le s) = Suc k"
proof (induction k arbitrary: a d le s)
  case 0
  then have l: "[a..mr] = [a]" and "a = mr" by (simp_all add: upto_rec1)
  moreover from 0 have "retriable_failure (call_result func s 0)" by blast
  then obtain e s' where f: "func s = (Inl e, s')" and e: "is_provider_error e" "retriable e"
    by (cases "func s") (auto simp: call_result_0 retriable_failure_def split: sum.splits)
  ultimately show ?case by (simp add: stop_def call_result_0)
next
  case (Suc k)
  then have l: "[a..mr] = a # [a + 1..mr]" and lt: "a < mr" by (simp_all add: upto_rec1)
  from Suc.prems(3) have "retriable_failure (call_result func s 0)" by blast
  then obtain e s' where f: "func s = (Inl e, s')" and e: "is_provider_error e" "retriable e"
    by (cases "func s") (auto simp: call_result_0 retriable_failure_def split: sum.splits)
  have "\<forall>i\<le>k. retriable_failure (call_result func s' i)"
    using Suc.prems(3) f by (auto simp: call_result_Suc)
  moreover have "a + 1 \<le> mr" "k = nat (mr - (a + 1))" using Suc.prems(1,2) by simp_all
  ultimately have
    "outcome (retry_loop func mr [a + 1..mr] (min (d * 2) MAX_DELAY) (Some e) s')
       = call_result func s' k
     \<and> calls (retry_loop func mr [a + 1..mr] (min (d * 2) MAX_DELAY) (Some e) s') = Suc k"
    using Suc.IH by blast
  then show ?case using l lt f e by (simp add: Let_def call_result_Suc)
qed

lemma retry_loop_permanent:
  "permanent_failure (call_result func s 0) \<Longrightarrow>
   outcome (retry_loop func mr (a # as) d le s) = call_result func s 0
   \<and> calls (retry_loop func mr (a # as) d le s) = 1"
  by (cases "func s")
     (auto simp: call_result_0 permanent_failure_def stop_def split: sum.splits)

lemma doubled_delay: "0 \<le> d \<Longrightarrow> min (min (d * 2) 30 * 2 ^ i) (30::real) = min (d * 2 ^ Suc i) 30"
proof (cases "d * 2 \<le> 30")
  case True
  then show ?thesis by (simp add: mult.assoc)
next
  case False
  assume "0 \<le> d"
  have one: "(1::real) \<le> 2 ^ i" by simp
  have "30 < d * 2" using False by simp
  also have "d * 2 = (d * 2) * 1" by simp
  also have "\<dots> \<le> (d * 2) * 2 ^ i"
    by (rule mult_left_mono) (use one \<open>0 \<le> d\<close> in simp_all)
  also have "\<dots> = d * 2 ^ Suc i" by simp
  finally have "30 \<le> d * 2 ^ Suc i" by simp
  moreover have "30 \<le> 30 * (2::real) ^ i" using one by simp
  moreover have "min (d * 2) 30 = (30 :: real)" using False by simp
  ultimately show ?thesis by simp
qed

lemma sleep_for_hint:
  "sleep_for e d = (case retry_hint e of Some h \<Rightarrow> min h 30 | None \<Rightarrow> min d 30)"
  by (induction e d rule: sleep_for.induct) (simp_all add: MAX_DELAY_def)

lemma retry_loop_sleeps:
  "0 \<le> d \<Longrightarrow> i < length (sleeps (retry_loop func mr as d le s)) \<Longrightarrow>
   retriable_failure (call_result func s i)
   \<and> sleeps (retry_loop func mr as d le s) ! i =
     (case hint_of (call_result func s i) of
        Some h \<Rightarrow> min h 30
      | None \<Rightarrow> min (d * 2 ^ i) 30)"
proof (induction as arbitrary: d le s i)
  case Nil
  then show ?case by simp
next
  case (Cons a as)
  obtain r s' where f: "func s = (r, s')" by (cases "func s")
  show ?case
  proof (cases "\<exists>e. r = Inl e \<and> is_provider_error e \<and> retriable e \<and> a < mr")
    case False
    then have "sleeps (retry_loop func mr (a # as) d le s) = []"
      using f by (auto simp: stop_def split: sum.splits)
    then show ?thesis using Cons.prems by simp
  next
    case True
    then obtain e where e: "r = Inl e" "is_provider_error e" "retriable e" "a < mr" by blast
    let ?r = "retry_loop func mr as (min (d * 2) MAX_DELAY) (Some e) s'"
    have sl: "sleeps (retry_loop func mr (a # as) d le s) = sleep_for e d # sleeps ?r"
      using f e by (simp add: Let_def)
    show ?thesis
    proof (cases i)
      case 0
      then show ?thesis using sl f e
        by (simp add: call_result_0 retriable_failure_def sleep_for_hint hint_of_def split: option.splits)
    next
      case (Suc j)
      then have "j < length (sleeps ?r)" using Cons.prems(2) sl by simp
      moreover have "0 \<le> min (d * 2) MAX_DELAY" using Cons.prems(1) by (simp add: MAX_DELAY_def)
      ultimately have
        "retriable_failure (call_result func s' j)
         \<and> sleeps ?r ! j =
           (case hint_of (call_result func s' j) of
              Some h \<Rightarrow> min h 30
            | None \<Rightarrow> min (min (d * 2) MAX_DELAY * 2 ^ j) 30)"
        using Cons.IH by blast
      moreover have "min (min (d * 2) MAX_DELAY * 2 ^ j) 30 = min (d * 2 ^ Suc j) 30"
        using doubled_delay [OF Cons.prems(1)] by (simp add: MAX_DELAY_def)
      ultimately show ?thesis using sl Suc f
        by (simp add: call_result_Suc split: option.splits)
    qed
  qed
qed

lemma retry_loop_sleeps_length:
  "k = nat (mr - a) \<Longrightarrow> a \<le> mr \<Longrightarrow>
   Suc (length (sleeps (retry_loop func mr [a..mr] d le s)))
     = calls (retry_loop func mr [a..mr] d le s)"
proof (induction k arbitrary: a d le s)
  case 0
  then have l: "[a..mr] = [a]" "a = mr" by (simp_all add: upto_rec1)
  obtain r s' where f: "func s = (r, s')" by (cases "func s")
  show ?case using l f by (auto simp: stop_def split: sum.splits)
next
  case (Suc k)
  then have l: "[a..mr] = a # [a + 1..mr]" and lt: "a < mr" by (simp_all add: upto_rec1)
  obtain r s' where f: "func s = (r, s')" by (cases "func s")
  have "k = nat (mr - (a + 1))" "a + 1 \<le> mr" using Suc.prems by simp_all
  then have ih: "\<And>d le s. Suc (length (sleeps (retry_loop func mr [a + 1..mr] d le s)))
     = calls (retry_loop func mr [a + 1..mr] d le s)"
    using Suc.IH by blast
  show ?case using l f ih by (auto simp: stop_def Let_def split: sum.splits)
qed

lemma upto_0_5: "[0..5::int] = [0, 1, 2, 3, 4, 5]"
  by (simp add: upto_rec1)

text \<open>
  C6. With the default of 6 tries: an operation that fails retriably \<open>k < 6\<close> times
  and then succeeds is called \<open>k + 1\<close> times and its value is returned; a permanent
  error on the first call is propagated after that one call; when all 6 tries fail
  retriably, the error of the last try is propagated after 6 calls, and it is a retriable
  failure, not a permanent one.
\<close>

theorem with_retry_default_attempts:
  "(k < 6 \<and> (\<forall>i<k. retriable_failure (call_result func s i)) \<and> call_result func s k = Inr v \<longrightarrow>
      outcome (with_retry func MAX_RETRIES s) = Inr v
      \<and> calls (with_retry func MAX_RETRIES s) = k + 1)
   \<and> (permanent_failure (call_result func s 0) \<longrightarrow>
      outcome (with_retry func MAX_RETRIES s) = call_result func s 0
      \<and> calls (with_retry func MAX_RETRIES s) = 1)
   \<and> ((\<forall>i<6. retriable_failure (call_result func s i)) \<longrightarrow>
      outcome (with_retry func MAX_RETRIES s) = call_result func s 5
      \<and> calls (with_retry func MAX_RETRIES s) = 6
      \<and> retriable_failure (outcome (with_retry func MAX_RETRIES s))
      \<and> \<not> permanent_failure (outcome (with_retry func MAX_RETRIES s)))"
proof (intro conjI impI)
  assume a: "k < 6 \<and> (\<forall>i<k. retriable_failure (call_result func s i)) \<and> call_result func s k = Inr v"
  then have "0 + int k \<le> MAX_RETRIES" by (simp add: MAX_RETRIES_def)
  from retry_loop_success [OF this, of func s v BASE_DELAY None] a
  show "outcome (with_retry func MAX_RETRIES s) = Inr v"
    and "calls (with_retry func MAX_RETRIES s) = k + 1"
    by (simp_all add: with_retry_def)
next
  assume a: "permanent_failure (call_result func s 0)"
  have "[0..MAX_RETRIES] = 0 # [1..MAX_RETRIES]" by (simp add: MAX_RETRIES_def upto_rec1)
  with retry_loop_permanent [OF a, of MAX_RETRIES 0 "[1..MAX_RETRIES]" BASE_DELAY None]
  show "outcome (with_retry func MAX_RETRIES s) = call_result func s 0"
    and "calls (with_retry func MAX_RETRIES s) = 1"
    by (simp_all add: with_retry_def)
next
  assume a: "\<forall>i<6. retriable_failure (call_result func s i)"
  then have b: "\<forall>i\<le>5. retriable_failure (call_result func s i)" by auto
  have "(0::int) \<le> MAX_RETRIES" "5 = nat (MAX_RETRIES - 0)" by (simp_all add: MAX_RETRIES_def)
  from retry_loop_exhausted [OF this b, of BASE_DELAY None]
  have r: "outcome (with_retry func MAX_RETRIES s) = call_result func s 5"
    "calls (with_retry func MAX_RETRIES s) = 6"
    by (simp_all add: with_retry_def)
  then show "outcome (with_retry func MAX_RETRIES s) = call_result func s 5"
    and "calls (with_retry func MAX_RETRIES s) = 6" by simp_all
  from a have c: "retriable_failure (call_result func s 5)" by simp
  with r show "retriable_failure (outcome (with_retry func MAX_RETRIES s))" by simp
  from c r show "\<not> permanent_failure (outcome (with_retry func MAX_RETRIES s))"
    by (auto simp: retriable_failure_def permanent_failure_def split: sum.splits)
qed

text \<open>
  C7, amended. Every call but the last is a retriable failure followed by one wait. The
  wait after the \<open>(i+1)\<close>-th call is \<open>min(2^i, 30)\<close>, except that a rate-limit error
  carrying a non-zero retry-after hint is followed by a wait of \<open>min(hint, 30)\<close>; the
  doubling sequence goes on unaffected. (A hint of zero is not used: see the counterexample.)
\<close>

theorem with_retry_backoff:
  "length (sleeps (with_retry func max_retries s)) = calls (with_retry func max_retries s) - 1
   \<and> (\<forall>i < length (sleeps (with_retry func max_retries s)).
        retriable_failure (call_result func s i)
        \<and> sleeps (with_retry func max_retries s) ! i =
            (case hint_of (call_result func s i) of
               Some hint \<Rightarrow> min hint 30
             | None \<Rightarrow> min (2 ^ i) 30))"
proof (intro conjI allI impI)
  show "length (sleeps (with_retry func max_retries s)) = calls (with_retry func max_retries s) - 1"
  proof (cases "0 \<le> max_retries")
    case True
    from retry_loop_sleeps_length [OF refl this, of func BASE_DELAY None s]
    show ?thesis by (simp add: with_retry_def)
  next
    case False
    then show ?thesis by (simp add: with_retry_def)
  qed
next
  fix i assume "i < length (sleeps (with_retry func max_retries s))"
  then have "i < length (sleeps (retry_loop func max_retries [0..max_retries] BASE_DELAY None s))"
    by (simp add: with_retry_def)
  moreover have "0 \<le> BASE_DELAY" by (simp add: BASE_DELAY_def)
  ultimately show "retriable_failure (call_result func s i)"
    and "sleeps (with_retry func max_retries s) ! i =
            (case hint_of (call_result func s i) of
               Some hint \<Rightarrow> min hint 30
             | None \<Rightarrow> min (2 ^ i) 30)"
    using retry_loop_sleeps [of BASE_DELAY i func max_retries "[0..max_retries]" None s]
    by (simp_all add: with_retry_def BASE_DELAY_def split: option.splits)
qed


theorem with_retry_default_attempts_witness:
  "outcome (with_retry play MAX_RETRIES script_two_failures) = Inr ''po_1''
   \<and> calls (with_retry play MAX_RETRIES script_two_failures) = 3
   \<and> outcome (with_retry play MAX_RETRIES script_permanent)
       = Inl (PermanentError ''invalid account'' 400)
   \<and> calls (with_retry play MAX_RETRIES script_permanent) = 1
   \<and> outcome (with_retry play MAX_RETRIES script_always_failing)
       = Inl (ProviderError ''unavailable'' 503 True)
   \<and> calls (with_retry play MAX_RETRIES script_always_failing) = 6"
proof -
  have a: "(2::nat) < 6 \<and> (\<forall>i<2. retriable_failure (call_result play script_two_failures i))
       \<and> call_result play script_two_failures 2 = Inr ''po_1''"
    by (auto simp: less_Suc_eq numeral_eq_Suc call_result_def retriable_failure_def
        script_two_failures_def)
  have b: "permanent_failure (call_result play script_permanent 0)"
    and b': "call_result play script_permanent 0 = Inl (PermanentError ''invalid account'' 400)"
    by (simp_all add: call_result_def permanent_failure_def script_permanent_def)
  have c: "\<forall>i<6. retriable_failure (call_result play script_always_failing i)"
    by (auto simp: less_Suc_eq numeral_eq_Suc call_result_def retriable_failure_def
        script_always_failing_def)
  have c': "call_result play script_always_failing 5 = Inl (ProviderError ''unavailable'' 503 True)"
    by (simp add: numeral_eq_Suc call_result_def script_always_failing_def)
  show ?thesis
    using a b b' c c'
      with_retry_default_attempts [of 2 play script_two_failures "''po_1''"]
      with_retry_default_attempts [of 0 play script_permanent "''po_1''"]
      with_retry_default_attempts [of 0 play script_always_failing "''po_1''"]
    by simp
qed

theorem with_retry_backoff_witness:
  "sleeps (with_retry play MAX_RETRIES script_two_failures) ! 0 = 5
   \<and> sleeps (with_retry play MAX_RETRIES script_two_failures) ! 1 = 2
   \<and> length (sleeps (with_retry play MAX_RETRIES script_two_failures)) = 2"
proof -
  have l: "length (sleeps (with_retry play MAX_RETRIES script_two_failures)) = 2"
    by (simp add: with_retry_def upto_0_5 script_two_failures_def stop_def MAX_RETRIES_def
        MAX_DELAY_def BASE_DELAY_def)
  have h: "hint_of (call_result play script_two_failures 0) = Some 5"
    "hint_of (call_result play script_two_failures 1) = None"
    by (simp_all add: call_result_def script_two_failures_def hint_of_def)
  show ?thesis
    using l h with_retry_backoff [of play MAX_RETRIES script_two_failures]
    by (simp add: numeral_2_eq_2 All_less_Suc)
qed

text \<open>
  C7, as stated: a rate-limit error with the retry-after hint 0 on the first call is
  followed by a wait of 1, the computed delay, not of \<open>min(0, 30) = 0\<close>.
\<close>

theorem zero_hint_counterexample:
  "call_result play script_zero_hint 0 = Inl (RateLimitError ''Rate limited'' (Some 0))
   \<and> sleeps (with_retry play MAX_RETRIES script_zero_hint) = [1]
   \<and> min (0::real) 30 \<noteq> 1"
  by (simp add: with_retry_def upto_0_5 script_zero_hint_def stop_def MAX_RETRIES_def
      MAX_DELAY_def BASE_DELAY_def call_result_def)


section \<open>Properties of the orchestrator\<close>

lemma record_outcome_count:
  "successes (record_outcome r t) + skips (record_outcome r t) + failures (record_outcome r t)
     = Suc (successes t + skips t + failures t)"
  by (cases "verdict r") (simp_all add: record_outcome_def Let_def)

lemma process_payouts_count:
  "successes (process_payouts env run event i ps t)
     + skips (process_payouts env run event i ps t)
     + failures (process_payouts env run event i ps t)
   = successes t + skips t + failures t + length ps"
  by (induction ps arbitrary: i t) (simp_all add: record_outcome_count)

text \<open>
  C8. When a run reaches COMPLETED, the counts of its summary add up to the number of
  recipients: the run processes one payout per recipient, and each per-payout transition
  adds one to exactly one of created, skipped and failed.
\<close>

theorem run_counts_sum:
  "run_status (run_row (execute_run env db eid w)) = RUN_COMPLETED \<Longrightarrow>
   created_count (run_row (execute_run env db eid w))
     + skipped_count (run_row (execute_run env db eid w))
     + failed_count (run_row (execute_run env db eid w))
   = length (investors db)"
  by (cases "find (\<lambda>e. event_id e = eid) (events db)")
     (simp_all add: execute_run_def Let_def process_payouts_count new_run_def empty_tally_def)

theorem run_counts_sum_witness:
  "created_count (run_row demo_first) + skipped_count (run_row demo_first)
     + failed_count (run_row demo_first) = 3"
proof -
  have "run_status (run_row demo_first) = RUN_COMPLETED"
    by (simp add: demo_first_def execute_run_def demo_db_def demo_event_def Let_def)
  from run_counts_sum [OF this [unfolded demo_first_def]]
  show ?thesis by (simp add: demo_first_def demo_db_def demo_investors_def)
qed

subsection \<open>The per-payout transition\<close>

lemma gate_existing_order:
  "truthy (payment_order_id p) \<Longrightarrow>
   \<not> eligible (gate fmt p) \<and> skip_reason (gate fmt p) = Some EXISTING_PAYMENT_ORDER"
  by (simp add: gate_def check_eligibility_def)

lemma gate_fmt_irrelevant:
  "eligible (gate fmt p) = eligible (gate fmt' p)"
  "skip_reason (gate fmt p) = skip_reason (gate fmt' p)"
  by (simp_all add: gate_def check_eligibility_def)

lemma process_refused:
  "\<not> eligible (gate (float_str env) p) \<Longrightarrow>
   process_single_payout env ts run p ev w =
     \<lparr>verdict = skipped,
      payout_after = p
        \<lparr>status := SKIPPED,
         payout_skip_reason := skip_reason (gate (float_str env) p),
         payout_notes := Some (append_note ts (payout_notes p)
           (''Skipped: '' @ message (gate (float_str env) p)))\<rparr>,
      entries = [log_event ''eligibility_failed'' (Some (run_ident run)) (Some (payout_id p))],
      world = w,
      requests = []\<rparr>"
  by (simp add: process_single_payout_def Let_def)

lemma process_keeps_key:
  "liquidation_event_id (payout_after (process_single_payout env ts run p ev w))
     = liquidation_event_id p"
  "investor_id (payout_after (process_single_payout env ts run p ev w)) = investor_id p"
  by (simp_all add: process_single_payout_def Let_def split: sum.splits exn.splits)

lemma process_keeps_run_id:
  "run_id (payout_after (process_single_payout env ts run p ev w)) = run_id p"
  by (simp add: process_single_payout_def Let_def split: sum.splits exn.splits)

lemma process_requests:
  "rq \<in> set (requests (process_single_payout env ts run p ev w)) \<Longrightarrow>
   eligible (gate (float_str env) p)
   \<and> map_of (metadata rq) ''investor_id'' = Some (investor_id p)"
  by (cases "eligible (gate (float_str env) p)")
     (auto simp: process_single_payout_def Let_def build_request_def
        split: sum.splits exn.splits)

lemma append_note_changes: "Some (append_note ts existing msg) \<noteq> existing"
  by (cases existing) (auto simp: append_note_def Let_def)

subsection \<open>The processing loop\<close>

lemma record_outcome_fields:
  "processed (record_outcome r t) = processed t @ [payout_after r]"
  "submitted (record_outcome r t) = submitted t @ requests r"
  "outside (record_outcome r t) = world r"
  by (cases "verdict r"; simp add: record_outcome_def Let_def)+

lemma process_payouts_processed:
  "\<exists>qs. processed (process_payouts env run ev i ps t) = processed t @ qs
        \<and> list_all2 (came_from env run ev) ps qs"
proof (induction ps arbitrary: i t)
  case Nil
  then show ?case by simp
next
  case (Cons p ps)
  let ?r = "process_single_payout env (clock env i) run p ev (outside t)"
  obtain qs where qs:
    "processed (process_payouts env run ev (Suc i) ps (record_outcome ?r t))
       = processed (record_outcome ?r t) @ qs"
    "list_all2 (came_from env run ev) ps qs"
    using Cons.IH by blast
  have "came_from env run ev p (payout_after ?r)"
    unfolding came_from_def by blast
  then have "list_all2 (came_from env run ev) (p # ps) (payout_after ?r # qs)"
    using qs(2) by simp
  moreover have "processed (process_payouts env run ev i (p # ps) t)
      = processed t @ (payout_after ?r # qs)"
    using qs(1) by (simp add: record_outcome_fields)
  ultimately show ?case by blast
qed

lemma process_payouts_submitted:
  "rq \<in> set (submitted (process_payouts env run ev i ps t)) \<Longrightarrow>
   rq \<in> set (submitted t)
   \<or> (\<exists>p\<in>set ps. \<exists>ts w. rq \<in> set (requests (process_single_payout env ts run p ev w)))"
proof (induction ps arbitrary: i t)
  case Nil
  then show ?case by simp
next
  case (Cons p ps)
  let ?r = "process_single_payout env (clock env i) run p ev (outside t)"
  from Cons.prems have "rq \<in> set (submitted (process_payouts env run ev (Suc i) ps (record_outcome ?r t)))"
    by simp
  then consider "rq \<in> set (submitted (record_outcome ?r t))"
    | "\<exists>p\<in>set ps. \<exists>ts w. rq \<in> set (requests (process_single_payout env ts run p ev w))"
    using Cons.IH by blast
  then show ?case
  proof cases
    case 1
    then have "rq \<in> set (submitted t) \<or> rq \<in> set (requests ?r)"
      by (simp add: record_outcome_fields)
    then show ?thesis by auto
  next
    case 2
    then show ?thesis by auto
  qed
qed

subsection \<open>The commit\<close>

lemma find_store_same:
  "find_payout (liquidation_event_id p) (investor_id p) (store_payout p rows) = Some p"
  by (induction rows) (simp_all add: find_payout_def)

lemma find_store_other:
  "\<not> (liquidation_event_id p = eid \<and> investor_id p = iid) \<Longrightarrow>
   find_payout eid iid (store_payout p rows) = find_payout eid iid rows"
  by (induction rows) (auto simp: find_payout_def)

lemma find_after_commit:
  "find_payout eid iid (commit_payouts rows qs) =
     (case find (\<lambda>q. liquidation_event_id q = eid \<and> investor_id q = iid) (rev qs) of
        Some q \<Rightarrow> Some q
      | None \<Rightarrow> find_payout eid iid rows)"
unfolding commit_payouts_def
proof (induction qs rule: rev_induct)
  case Nil
  then show ?case by simp
next
  case (snoc q qs)
  show ?case
  proof (cases "liquidation_event_id q = eid \<and> investor_id q = iid")
    case True
    then show ?thesis using find_store_same [of q] by auto
  next
    case False
    then have "find_payout eid iid (store_payout q rows') = find_payout eid iid rows'" for rows'
      by (rule find_store_other)
    then show ?thesis using snoc False by auto
  qed
qed

subsection \<open>Payouts of a run\<close>

lemma ensure_payout_key:
  "liquidation_event_id (ensure_payout env run ev db investor) = run_event_id run"
  "investor_id (ensure_payout env run ev db investor) = inv_id investor"
  by (auto simp: ensure_payout_def find_payout_def Let_def find_Some_iff split: option.splits)

lemma ensure_payout_existing:
  "find_payout (run_event_id run) (inv_id investor) (payouts db) = Some p \<Longrightarrow>
   ensure_payout env run ev db investor =
     (if status p \<notin> {COMPLETED, SKIPPED} then p\<lparr>run_id := Some (run_ident run)\<rparr> else p)"
  by (simp add: ensure_payout_def)

lemma find_SomeD: "find P xs = Some x \<Longrightarrow> x \<in> set xs \<and> P x"
  by (induction xs) (auto split: if_splits)

lemma list_all2_right:
  "list_all2 R ps qs \<Longrightarrow> q \<in> set qs \<Longrightarrow> \<exists>p\<in>set ps. R p q"
  by (induction rule: list_all2_induct) auto

lemma list_all2_left:
  "list_all2 R ps qs \<Longrightarrow> p \<in> set ps \<Longrightarrow> \<exists>q\<in>set qs. R p q"
  by (induction rule: list_all2_induct) auto

lemma list_all2_find_rev:
  assumes "list_all2 R ps qs" and "p \<in> set ps"
    and key: "\<And>p q. R p q \<Longrightarrow> K q = K p"
  shows "\<exists>p' q. p' \<in> set ps \<and> K p' = K p \<and> R p' q \<and> find (\<lambda>q. K q = K p) (rev qs) = Some q"
proof -
  from list_all2_left [OF assms(1,2)] obtain q0 where q0: "q0 \<in> set qs" "R p q0" by blast
  then have "K q0 = K p" using key by blast
  then have "find (\<lambda>q. K q = K p) (rev qs) \<noteq> None"
    using q0(1) by (auto simp: find_None_iff)
  then obtain q where q: "find (\<lambda>q. K q = K p) (rev qs) = Some q" by blast
  from find_SomeD [OF this] have qq: "q \<in> set qs" "K q = K p" by simp_all
  from list_all2_right [OF assms(1) qq(1)] obtain p' where p': "p' \<in> set ps" "R p' q" by blast
  then have "K p' = K p" using key [OF p'(2)] qq(2) by simp
  then show ?thesis using p' q by blast
qed

lemma execute_run_found:
  assumes "find (\<lambda>e. event_id e = eid) (events db) = Some ev"
  shows "raised (execute_run env db eid w) = None
           \<longleftrightarrow> commit_ok (clashing_write_order env) (payouts db)
                 (processed (run_tally env db eid ev w))"
    and "raised (execute_run env db eid w) = None \<Longrightarrow>
         payouts (db_after (execute_run env db eid w))
           = commit_payouts (payouts db) (processed (run_tally env db eid ev w))"
    and "requests_sent (execute_run env db eid w) = submitted (run_tally env db eid ev w)"
    and "created_count (run_row (execute_run env db eid w)) = successes (run_tally env db eid ev w)"
    and "skipped_count (run_row (execute_run env db eid w)) = skips (run_tally env db eid ev w)"
    and "failed_count (run_row (execute_run env db eid w)) = failures (run_tally env db eid ev w)"
  using assms by (auto simp: execute_run_def Let_def run_tally_def split: if_splits)

lemma execute_run_not_stored:
  "raised (execute_run env db eid w) \<noteq> None \<Longrightarrow> db_after (execute_run env db eid w) = db"
  "find (\<lambda>e. event_id e = eid) (events db) = None \<Longrightarrow>
   payouts (db_after (execute_run env db eid w)) = payouts db"
  by (cases "find (\<lambda>e. event_id e = eid) (events db)";
      simp add: execute_run_def Let_def split: if_splits)+

lemma run_row_persisted:
  "raised (execute_run env db eid w) = None \<Longrightarrow>
   runs (db_after (execute_run env db eid w)) = runs db @ [run_row (execute_run env db eid w)]"
  by (cases "find (\<lambda>e. event_id e = eid) (events db)")
     (auto simp: execute_run_def Let_def split: if_splits)

lemma run_tally_processed:
  "list_all2 (came_from env (new_run env eid) ev)
     (map (ensure_payout env (new_run env eid) ev db) (investors db))
     (processed (run_tally env db eid ev w))"
  using process_payouts_processed [of env "new_run env eid" ev 0
      "map (ensure_payout env (new_run env eid) ev db) (investors db)" "empty_tally w"]
  by (auto simp: empty_tally_def run_tally_def)

lemma run_final_payout:
  assumes ev: "find (\<lambda>e. event_id e = eid) (events db) = Some ev"
    and inv: "iid \<in> inv_id ` set (investors db)"
    and ok: "raised (execute_run env db eid w) = None"
  shows "\<exists>investor ts w'. investor \<in> set (investors db) \<and> inv_id investor = iid
     \<and> find_payout eid iid (payouts (db_after (execute_run env db eid w)))
       = Some (payout_after (process_single_payout env ts (new_run env eid)
           (ensure_payout env (new_run env eid) ev db investor) ev w'))"
proof -
  let ?run = "new_run env eid"
  let ?todo = "map (ensure_payout env ?run ev db) (investors db)"
  let ?K = "\<lambda>q. (liquidation_event_id q, investor_id q)"
  have eid: "run_event_id ?run = eid" by (simp add: new_run_def)
  obtain qs where qs: "processed (run_tally env db eid ev w) = qs"
      "list_all2 (came_from env ?run ev) ?todo qs"
    using run_tally_processed [of env eid ev db w] by blast
  from inv obtain i0 where i0: "i0 \<in> set (investors db)" "inv_id i0 = iid" by auto
  let ?p0 = "ensure_payout env ?run ev db i0"
  have "?p0 \<in> set ?todo" using i0 by simp
  moreover have "\<And>p q. came_from env ?run ev p q \<Longrightarrow> ?K q = ?K p"
    by (auto simp: came_from_def process_keeps_key)
  ultimately obtain p' q where pq: "p' \<in> set ?todo" "?K p' = ?K ?p0"
      "came_from env ?run ev p' q" "find (\<lambda>q. ?K q = ?K ?p0) (rev qs) = Some q"
    using list_all2_find_rev [OF qs(2), of ?p0 ?K] by blast
  have k0: "?K ?p0 = (eid, iid)" using i0 eid by (simp add: ensure_payout_key)
  from pq(1) obtain investor where investor: "investor \<in> set (investors db)"
      "p' = ensure_payout env ?run ev db investor" by auto
  then have "inv_id investor = iid" using pq(2) k0 by (simp add: ensure_payout_key)
  moreover have "find (\<lambda>q. liquidation_event_id q = eid \<and> investor_id q = iid) (rev qs) = Some q"
    using pq(4) k0 by simp
  then have "find_payout eid iid (payouts (db_after (execute_run env db eid w))) = Some q"
    using execute_run_found(2) [OF ev ok] qs(1) by (simp add: find_after_commit)
  ultimately show ?thesis using investor pq(3) unfolding came_from_def by blast
qed

lemma run_requests:
  assumes "rq \<in> set (requests_sent (execute_run env db eid w))"
  shows "\<exists>ev investor ts w'. find (\<lambda>e. event_id e = eid) (events db) = Some ev
     \<and> investor \<in> set (investors db)
     \<and> rq \<in> set (requests (process_single_payout env ts (new_run env eid)
           (ensure_payout env (new_run env eid) ev db investor) ev w'))"
proof (cases "find (\<lambda>e. event_id e = eid) (events db)")
  case None
  then show ?thesis using assms by (simp add: execute_run_def Let_def)
next
  case (Some ev)
  then have "rq \<in> set (submitted (process_payouts env (new_run env eid) ev 0
      (map (ensure_payout env (new_run env eid) ev db) (investors db)) (empty_tally w)))"
    using assms execute_run_found(3) [OF Some, of env w] by (simp add: run_tally_def)
  from process_payouts_submitted [OF this] Some show ?thesis
    by (auto simp: empty_tally_def)
qed

lemma run_keeps_tables:
  "investors (db_after (execute_run env db eid w)) = investors db"
  "events (db_after (execute_run env db eid w)) = events db"
  by (cases "find (\<lambda>e. event_id e = eid) (events db)"; simp add: execute_run_def Let_def)+

lemma with_retry_first_success:
  "func s = (Inr v, s') \<Longrightarrow> with_retry func MAX_RETRIES s = stop (Inr v) s'"
  by (simp add: with_retry_def MAX_RETRIES_def upto_rec1)

lemma process_with_success:
  assumes "succeeds_with_order_id env"
  shows "verdict (process_single_payout env ts run p ev w) \<noteq> failed
    \<and> \<not> eligible (gate fmt (payout_after (process_single_payout env ts run p ev w)))
    \<and> status (payout_after (process_single_payout env ts run p ev w)) \<in> {COMPLETED, SKIPPED}
    \<and> (status (payout_after (process_single_payout env ts run p ev w)) = COMPLETED
         \<longrightarrow> truthy (payment_order_id (payout_after (process_single_payout env ts run p ev w))))"
proof (cases "eligible (gate (float_str env) p)")
  case False
  then have "\<not> eligible (gate fmt p)" using gate_fmt_irrelevant(1) by blast
  then have "\<not> eligible (gate fmt (p\<lparr>status := SKIPPED, payout_skip_reason := r, payout_notes := n\<rparr>))"
    for r n by (simp add: gate_def)
  then show ?thesis using False by (simp add: process_refused)
next
  case True
  let ?rd = "select_rail (country p) (payment_method p) (py_bool (has_aba_routing p))"
  let ?routed = "p\<lparr>rail := Some (or_else (subtype ?rd) (payment_type ?rd)),
                   rail_subtype := subtype ?rd,
                   rail_currency := Some (currency ?rd),
                   payout_fx_indicator := fx_indicator ?rd,
                   payment_order_type := Some (label ?rd)\<rparr>"
  let ?rq = "build_request ?rd ?routed ev"
  from assms obtain response w' where
    r: "create_payment_order env ?rq w = (Inr response, w')"
      "response_payment_order_id response \<noteq> []"
    unfolding succeeds_with_order_id_def by blast
  have "with_retry (create_payment_order env ?rq) MAX_RETRIES w = stop (Inr response) w'"
    using r(1) by (rule with_retry_first_success)
  then show ?thesis using True r(2)
    by (simp add: process_single_payout_def Let_def stop_def gate_def check_eligibility_def)
qed

lemma process_payouts_all_refused:
  "\<forall>p\<in>set ps. \<not> eligible (gate (float_str env) p) \<Longrightarrow>
   successes (process_payouts env run ev i ps t) = successes t
   \<and> failures (process_payouts env run ev i ps t) = failures t
   \<and> skips (process_payouts env run ev i ps t) = skips t + length ps
   \<and> submitted (process_payouts env run ev i ps t) = submitted t"
proof (induction ps arbitrary: i t)
  case Nil
  then show ?case by simp
next
  case (Cons p ps)
  then have "\<not> eligible (gate (float_str env) p)" by simp
  then have "successes (record_outcome (process_single_payout env ts run p ev w) t) = successes t
    \<and> failures (record_outcome (process_single_payout env ts run p ev w) t) = failures t
    \<and> skips (record_outcome (process_single_payout env ts run p ev w) t) = Suc (skips t)
    \<and> submitted (record_outcome (process_single_payout env ts run p ev w) t) = submitted t"
    for ts w
    by (simp add: process_refused record_outcome_def Let_def)
  then show ?case using Cons by simp
qed

lemma process_payouts_no_failures:
  "succeeds_with_order_id env \<Longrightarrow>
   failures (process_payouts env run ev i ps t) = failures t"
proof (induction ps arbitrary: i t)
  case Nil
  then show ?case by simp
next
  case (Cons p ps)
  have "failures (record_outcome r t) = failures t" if "verdict r \<noteq> failed"
    for r :: "'a Processed"
    using that by (cases "verdict r") (simp_all add: record_outcome_def Let_def)
  then show ?case using Cons process_with_success [OF Cons.prems] by simp
qed

lemma ensure_payout_existing_fields:
  assumes "find_payout (run_event_id run) (inv_id investor) (payouts db) = Some p"
  shows "payment_order_id (ensure_payout env run ev db investor) = payment_order_id p"
    and "gate fmt (ensure_payout env run ev db investor) = gate fmt p"
    and "status (ensure_payout env run ev db investor) = status p"
    and "run_id (ensure_payout env run ev db investor)
          = (if status p \<notin> {COMPLETED, SKIPPED} then Some (run_ident run) else run_id p)"
  using assms by (simp_all add: ensure_payout_def gate_def)

lemma process_existing_order:
  assumes "truthy (payment_order_id q)"
  shows "requests (process_single_payout env ts run q ev w) = []
      \<and> verdict (process_single_payout env ts run q ev w) = skipped
      \<and> status (payout_after (process_single_payout env ts run q ev w)) = SKIPPED
      \<and> payout_skip_reason (payout_after (process_single_payout env ts run q ev w))
          = Some EXISTING_PAYMENT_ORDER
      \<and> payment_order_id (payout_after (process_single_payout env ts run q ev w))
          = payment_order_id q"
  using gate_existing_order [OF assms, of "float_str env"] by (simp add: process_refused)

lemma run_no_request_for_existing_order:
  assumes f: "find_payout eid iid (payouts db) = Some p"
    and t: "truthy (payment_order_id p)"
    and rq: "rq \<in> set (requests_sent (execute_run env db eid w))"
  shows "map_of (metadata rq) ''investor_id'' \<noteq> Some iid"
proof
  assume a: "map_of (metadata rq) ''investor_id'' = Some iid"
  from run_requests [OF rq] obtain ev' investor ts' w'' where
    rq': "rq \<in> set (requests (process_single_payout env ts' (new_run env eid)
           (ensure_payout env (new_run env eid) ev' db investor) ev' w''))"
    by blast
  let ?q = "ensure_payout env (new_run env eid) ev' db investor"
  from process_requests [OF rq'] have
    el: "eligible (gate (float_str env) ?q)"
    and who: "map_of (metadata rq) ''investor_id'' = Some (inv_id investor)"
    by (simp_all add: ensure_payout_key)
  have "inv_id investor = iid" using who a by simp
  then have "find_payout (run_event_id (new_run env eid)) (inv_id investor) (payouts db) = Some p"
    using f by (simp add: new_run_def)
  from ensure_payout_existing_fields(1) [OF this, of env ev'] have "truthy (payment_order_id ?q)"
    using t by simp
  then show False using el gate_existing_order by blast
qed


lemma run_tally_keys:
  assumes "q \<in> set (processed (run_tally env db eid ev w))"
  shows "\<exists>investor\<in>set (investors db). \<exists>ts w'.
           q = payout_after (process_single_payout env ts (new_run env eid)
                 (ensure_payout env (new_run env eid) ev db investor) ev w')"
proof -
  from list_all2_right [OF run_tally_processed assms]
  obtain p where "p \<in> set (map (ensure_payout env (new_run env eid) ev db) (investors db))"
    "came_from env (new_run env eid) ev p q" by blast
  then show ?thesis unfolding came_from_def by auto
qed

lemma run_untouched:
  assumes "iid \<notin> inv_id ` set (investors db)"
  shows "find_payout eid iid (payouts (db_after (execute_run env db eid w)))
           = find_payout eid iid (payouts db)"
proof (cases "find (\<lambda>e. event_id e = eid) (events db)")
  case None
  then show ?thesis by (simp add: execute_run_not_stored(2))
next
  case (Some ev)
  show ?thesis
  proof (cases "raised (execute_run env db eid w) = None")
    case False
    then show ?thesis by (simp add: execute_run_not_stored(1))
  next
    case True
    have "investor_id q \<noteq> iid" if "q \<in> set (processed (run_tally env db eid ev w))" for q
      using run_tally_keys [OF that] assms by (auto simp: process_keeps_key ensure_payout_key)
    then have "find (\<lambda>q. liquidation_event_id q = eid \<and> investor_id q = iid)
                 (rev (processed (run_tally env db eid ev w))) = None"
      by (auto simp: find_None_iff)
    then show ?thesis
      using execute_run_found(2) [OF Some True] by (simp add: find_after_commit)
  qed
qed

lemma store_same_order_id:
  "find_payout (liquidation_event_id q) (investor_id q) rows = Some r \<Longrightarrow>
   payment_order_id r = payment_order_id q \<Longrightarrow>
   map payment_order_id (store_payout q rows) = map payment_order_id rows"
  by (induction rows) (auto simp: find_payout_def split: if_splits)

lemma commit_same_order_ids:
  "\<forall>q\<in>set qs. \<exists>r. find_payout (liquidation_event_id q) (investor_id q) rows = Some r
       \<and> payment_order_id r = payment_order_id q \<Longrightarrow>
   map payment_order_id (commit_payouts rows qs) = map payment_order_id rows"
proof (induction qs arbitrary: rows)
  case Nil
  then show ?case by (simp add: commit_payouts_def)
next
  case (Cons q qs)
  from Cons.prems obtain r where r:
    "find_payout (liquidation_event_id q) (investor_id q) rows = Some r"
    "payment_order_id r = payment_order_id q" by auto
  have "\<exists>r'. find_payout (liquidation_event_id q') (investor_id q') (store_payout q rows) = Some r'
       \<and> payment_order_id r' = payment_order_id q'" if "q' \<in> set qs" for q'
  proof (cases "liquidation_event_id q = liquidation_event_id q' \<and> investor_id q = investor_id q'")
    case True
    from Cons.prems that obtain r' where
      "find_payout (liquidation_event_id q') (investor_id q') rows = Some r'"
      "payment_order_id r' = payment_order_id q'" by auto
    then have "payment_order_id q = payment_order_id q'" using r True by simp
    then show ?thesis using find_store_same [of q rows] True by simp
  next
    case False
    then show ?thesis using Cons.prems that find_store_other [of q _ _ rows] by auto
  qed
  then have "map payment_order_id (commit_payouts (store_payout q rows) qs)
      = map payment_order_id (store_payout q rows)"
    using Cons.IH by blast
  then show ?case using store_same_order_id [OF r] by (simp add: commit_payouts_def)
qed

lemma order_ids_map:
  "order_ids rows =
     concat (map (\<lambda>x. case x of None \<Rightarrow> [] | Some oid \<Rightarrow> [oid]) (map payment_order_id rows))"
  by (simp add: order_ids_def comp_def)

lemma commit_ok_unchanged:
  assumes "distinct (order_ids rows)"
    and "\<forall>q\<in>set qs. \<exists>r. find_payout (liquidation_event_id q) (investor_id q) rows = Some r
       \<and> payment_order_id r = payment_order_id q"
  shows "commit_ok clashing rows qs"
proof -
  have "order_ids (commit_payouts rows qs) = order_ids rows"
    using commit_same_order_ids [OF assms(2)] by (simp add: order_ids_map)
  moreover have "order_id_free rows q" if "q \<in> set qs" for q
    using assms(2) that
    by (auto simp: order_id_free_def stored_order_id_def split: option.splits)
  ultimately show ?thesis using assms(1) by (simp add: commit_ok_def list_all_iff)
qed

lemma run_leaves_distinct_order_ids:
  assumes "find (\<lambda>e. event_id e = eid) (events db) = Some ev"
    and "raised (execute_run env db eid w) = None"
  shows "distinct (order_ids (payouts (db_after (execute_run env db eid w))))"
  using execute_run_found(1) [OF assms(1), of env w] execute_run_found(2) [OF assms]
    assms(2) by (simp add: commit_ok_def)

lemma run_reprocesses_existing:
  assumes ev: "find (\<lambda>e. event_id e = eid) (events db) = Some ev"
    and inv: "iid \<in> inv_id ` set (investors db)"
    and f: "find_payout eid iid (payouts db) = Some p"
    and ok: "raised (execute_run env db eid w) = None"
  shows "\<exists>ts w'. find_payout eid iid (payouts (db_after (execute_run env db eid w)))
       = Some (payout_after (process_single_payout env ts (new_run env eid)
           (if status p \<notin> {COMPLETED, SKIPPED} then p\<lparr>run_id := Some (run_uuid env)\<rparr> else p)
           ev w'))"
proof -
  from run_final_payout [OF ev inv ok] obtain investor ts w' where
    i: "inv_id investor = iid"
    and fin: "find_payout eid iid (payouts (db_after (execute_run env db eid w)))
       = Some (payout_after (process_single_payout env ts (new_run env eid)
           (ensure_payout env (new_run env eid) ev db investor) ev w'))"
    by blast
  have "find_payout (run_event_id (new_run env eid)) (inv_id investor) (payouts db) = Some p"
    using f i by (simp add: new_run_def)
  from ensure_payout_existing [OF this, of env ev] fin show ?thesis
    by (auto simp: new_run_def)
qed

lemma run_marks_existing_order:
  assumes ev: "find (\<lambda>e. event_id e = eid) (events db) \<noteq> None"
    and inv: "iid \<in> inv_id ` set (investors db)"
    and f: "find_payout eid iid (payouts db) = Some p"
    and t: "truthy (payment_order_id p)"
    and ok: "raised (execute_run env db eid w) = None"
  shows "\<exists>p'. find_payout eid iid (payouts (db_after (execute_run env db eid w))) = Some p'
       \<and> status p' = SKIPPED
       \<and> payout_skip_reason p' = Some EXISTING_PAYMENT_ORDER
       \<and> payment_order_id p' = payment_order_id p"
proof -
  from ev obtain ev' where ev': "find (\<lambda>e. event_id e = eid) (events db) = Some ev'" by blast
  let ?q = "if status p \<notin> {COMPLETED, SKIPPED} then p\<lparr>run_id := Some (run_uuid env)\<rparr> else p"
  from run_reprocesses_existing [OF ev' inv f ok] obtain ts w' where
    fin: "find_payout eid iid (payouts (db_after (execute_run env db eid w)))
       = Some (payout_after (process_single_payout env ts (new_run env eid) ?q ev' w'))"
    by blast
  have q: "truthy (payment_order_id ?q)" "payment_order_id ?q = payment_order_id p"
    using t by simp_all
  from process_existing_order [OF q(1), of env ts "new_run env eid" ev' w'] fin q(2)
  show ?thesis by simp
qed

text \<open>
  C1, amended. A payout whose provider order id is a non-empty string when its
  eligibility is checked is marked skipped with reason EXISTING_PAYMENT_ORDER and no
  provider call is made for it. In a run, no request submitted to the provider names the
  recipient of such a payout; when the run finds its event, the recipient is among the
  investors and the commit goes through, the stored payout ends skipped, with that reason
  and its order id unchanged.
\<close>

theorem existing_order_never_resubmitted:
  assumes "payment_order_id p = Some oid" and "oid \<noteq> []"
  shows "requests (process_single_payout env ts run p ev w') = []
    \<and> verdict (process_single_payout env ts run p ev w') = skipped
    \<and> status (payout_after (process_single_payout env ts run p ev w')) = SKIPPED
    \<and> payout_skip_reason (payout_after (process_single_payout env ts run p ev w'))
        = Some EXISTING_PAYMENT_ORDER
    \<and> (find_payout eid iid (payouts db) = Some p \<longrightarrow>
         (\<forall>rq\<in>set (requests_sent (execute_run env db eid w)).
            map_of (metadata rq) ''investor_id'' \<noteq> Some iid)
         \<and> (find (\<lambda>e. event_id e = eid) (events db) \<noteq> None
              \<and> iid \<in> inv_id ` set (investors db)
              \<and> raised (execute_run env db eid w) = None \<longrightarrow>
            (\<exists>p'. find_payout eid iid (payouts (db_after (execute_run env db eid w))) = Some p'
               \<and> status p' = SKIPPED
               \<and> payout_skip_reason p' = Some EXISTING_PAYMENT_ORDER
               \<and> payment_order_id p' = Some oid)))"
proof -
  have t: "truthy (payment_order_id p)" using assms by simp
  have "\<exists>p'. find_payout eid iid (payouts (db_after (execute_run env db eid w))) = Some p'
               \<and> status p' = SKIPPED
               \<and> payout_skip_reason p' = Some EXISTING_PAYMENT_ORDER
               \<and> payment_order_id p' = Some oid"
    if "find_payout eid iid (payouts db) = Some p"
      and "find (\<lambda>e. event_id e = eid) (events db) \<noteq> None"
      and "iid \<in> inv_id ` set (investors db)"
      and "raised (execute_run env db eid w) = None"
    using run_marks_existing_order [OF that(2,3,1) t that(4)] assms(1) by simp
  then show ?thesis
    using process_existing_order [OF t, of env ts run ev w']
      run_no_request_for_existing_order [of eid iid db p _ env w, OF _ t]
    by blast
qed

text \<open>
  C3, amended. A stored payout of the event is the same after a run as before it when the
  run does not find the event, when the payout's recipient is not among the investors, or
  when the commit fails. Otherwise a payout that is completed or skipped at the start of
  the run is not attached to the run (its run reference stays; a payout in any other status
  is attached), but it still goes through the per-payout transition. When the eligibility
  check refuses it, as it does whenever it carries a non-empty order id, its routing fields
  and order id are unchanged, while its status becomes skipped, its skip reason the
  reason of the check, and a note is appended.
\<close>

theorem settled_payout_reprocessed:
  assumes "find_payout eid iid (payouts db) = Some p"
  shows "(find (\<lambda>e. event_id e = eid) (events db) = None
          \<or> iid \<notin> inv_id ` set (investors db)
          \<or> raised (execute_run env db eid w) \<noteq> None \<longrightarrow>
        find_payout eid iid (payouts (db_after (execute_run env db eid w))) = Some p)
    \<and> (find (\<lambda>e. event_id e = eid) (events db) = Some ev
          \<and> iid \<in> inv_id ` set (investors db)
          \<and> raised (execute_run env db eid w) = None \<longrightarrow>
        (\<exists>p'. find_payout eid iid (payouts (db_after (execute_run env db eid w))) = Some p'
          \<and> (status p \<notin> {COMPLETED, SKIPPED} \<longrightarrow> run_id p' = Some (run_uuid env))
          \<and> (status p \<in> {COMPLETED, SKIPPED} \<longrightarrow>
                run_id p' = run_id p
                \<and> (\<exists>ts w'. p' = payout_after
                      (process_single_payout env ts (new_run env eid) p ev w'))
                \<and> (\<not> eligible (gate (float_str env) p) \<longrightarrow>
                      status p' = SKIPPED
                      \<and> payout_skip_reason p' = skip_reason (gate (float_str env) p)
                      \<and> payout_notes p' \<noteq> payout_notes p
                      \<and> rail p' = rail p
                      \<and> rail_subtype p' = rail_subtype p
                      \<and> rail_currency p' = rail_currency p
                      \<and> payout_fx_indicator p' = payout_fx_indicator p
                      \<and> payment_order_type p' = payment_order_type p
                      \<and> payment_order_id p' = payment_order_id p))))"
proof (intro conjI impI)
  assume "find (\<lambda>e. event_id e = eid) (events db) = None
          \<or> iid \<notin> inv_id ` set (investors db)
          \<or> raised (execute_run env db eid w) \<noteq> None"
  then consider "find (\<lambda>e. event_id e = eid) (events db) = None"
    | "iid \<notin> inv_id ` set (investors db)"
    | "raised (execute_run env db eid w) \<noteq> None" by auto
  then show "find_payout eid iid (payouts (db_after (execute_run env db eid w))) = Some p"
  proof cases
    case 1
    then show ?thesis using assms by (simp add: execute_run_not_stored(2))
  next
    case 2
    then show ?thesis using assms by (simp add: run_untouched)
  next
    case 3
    then show ?thesis using assms by (simp add: execute_run_not_stored(1))
  qed
next
  assume a: "find (\<lambda>e. event_id e = eid) (events db) = Some ev
          \<and> iid \<in> inv_id ` set (investors db)
          \<and> raised (execute_run env db eid w) = None"
  let ?q = "if status p \<notin> {COMPLETED, SKIPPED} then p\<lparr>run_id := Some (run_uuid env)\<rparr> else p"
  from a have e: "find (\<lambda>e. event_id e = eid) (events db) = Some ev"
    and i: "iid \<in> inv_id ` set (investors db)"
    and ok: "raised (execute_run env db eid w) = None" by simp_all
  from run_reprocesses_existing [OF e i assms ok] obtain ts w' where
    fin: "find_payout eid iid (payouts (db_after (execute_run env db eid w)))
       = Some (payout_after (process_single_payout env ts (new_run env eid) ?q ev w'))"
    by blast
  let ?p' = "payout_after (process_single_payout env ts (new_run env eid) ?q ev w')"
  have x: "status p \<notin> {COMPLETED, SKIPPED} \<longrightarrow> run_id ?p' = Some (run_uuid env)"
    by (simp add: process_keeps_run_id)
  have y: "status p \<in> {COMPLETED, SKIPPED} \<longrightarrow>
          run_id ?p' = run_id p
          \<and> (\<exists>ts w'. ?p' = payout_after (process_single_payout env ts (new_run env eid) p ev w'))"
    by (auto simp: process_keeps_run_id)
  have z: "status ?p' = SKIPPED
        \<and> payout_skip_reason ?p' = skip_reason (gate (float_str env) p)
        \<and> payout_notes ?p' \<noteq> payout_notes p
        \<and> rail ?p' = rail p
        \<and> rail_subtype ?p' = rail_subtype p
        \<and> rail_currency ?p' = rail_currency p
        \<and> payout_fx_indicator ?p' = payout_fx_indicator p
        \<and> payment_order_type ?p' = payment_order_type p
        \<and> payment_order_id ?p' = payment_order_id p"
    if "status p \<in> {COMPLETED, SKIPPED}" "\<not> eligible (gate (float_str env) p)"
    using that append_note_changes by (simp add: process_refused)
  show "\<exists>p'. find_payout eid iid (payouts (db_after (execute_run env db eid w))) = Some p'
          \<and> (status p \<notin> {COMPLETED, SKIPPED} \<longrightarrow> run_id p' = Some (run_uuid env))
          \<and> (status p \<in> {COMPLETED, SKIPPED} \<longrightarrow>
                run_id p' = run_id p
                \<and> (\<exists>ts w'. p' = payout_after
                      (process_single_payout env ts (new_run env eid) p ev w'))
                \<and> (\<not> eligible (gate (float_str env) p) \<longrightarrow>
                      status p' = SKIPPED
                      \<and> payout_skip_reason p' = skip_reason (gate (float_str env) p)
                      \<and> payout_notes p' \<noteq> payout_notes p
                      \<and> rail p' = rail p
                      \<and> rail_subtype p' = rail_subtype p
                      \<and> rail_currency p' = rail_currency p
                      \<and> payout_fx_indicator p' = payout_fx_indicator p
                      \<and> payment_order_type p' = payment_order_type p
                      \<and> payment_order_id p' = payment_order_id p))"
    using fin x y z by blast
qed

text \<open>
  C2, amended. After a run against an existing event with a provider that always succeeds
  and returns non-empty order ids, and whose commit went through (the order ids returned
  were distinct and not stored before), a second run against the same event commits,
  creates nothing, fails nothing, calls the provider for nothing and skips every
  recipient's payout: its skipped count is the number of recipients, that is the created
  count plus the skipped count of the first run. Each payout the first run left completed
  is skipped by the second for EXISTING_PAYMENT_ORDER.
\<close>

theorem second_run_skips_all:
  assumes ok: "succeeds_with_order_id env1"
    and ev: "find (\<lambda>e. event_id e = eid) (events db) \<noteq> None"
    and c1: "raised (execute_run env1 db eid w) = None"
  shows "raised (run_twice env1 env2 db eid w) = None
    \<and> created_count (run_row (run_twice env1 env2 db eid w)) = 0
    \<and> failed_count (run_row (run_twice env1 env2 db eid w)) = 0
    \<and> skipped_count (run_row (run_twice env1 env2 db eid w)) = length (investors db)
    \<and> skipped_count (run_row (run_twice env1 env2 db eid w))
        = created_count (run_row (execute_run env1 db eid w))
          + skipped_count (run_row (execute_run env1 db eid w))
    \<and> requests_sent (run_twice env1 env2 db eid w) = []
    \<and> (\<forall>iid\<in>inv_id ` set (investors db). \<forall>p1.
          find_payout eid iid (payouts (db_after (execute_run env1 db eid w))) = Some p1
          \<and> status p1 = COMPLETED \<longrightarrow>
          (\<exists>p2. find_payout eid iid (payouts (db_after (run_twice env1 env2 db eid w))) = Some p2
             \<and> status p2 = SKIPPED
             \<and> payout_skip_reason p2 = Some EXISTING_PAYMENT_ORDER
             \<and> payment_order_id p2 = payment_order_id p1))"
proof -
  from ev obtain e where e: "find (\<lambda>e. event_id e = eid) (events db) = Some e" by blast
  let ?r1 = "execute_run env1 db eid w"
  let ?db1 = "db_after ?r1"
  let ?w1 = "world_after ?r1"
  let ?r2 = "execute_run env2 ?db1 eid ?w1"
  let ?run2 = "new_run env2 eid"
  have twice: "run_twice env1 env2 db eid w = ?r2"
    by (simp add: run_twice_def Let_def)
  have e1: "find (\<lambda>e. event_id e = eid) (events ?db1) = Some e"
    and i1: "investors ?db1 = investors db"
    using e by (simp_all add: run_keeps_tables)
  have settled: "\<exists>q. find_payout eid iid (payouts ?db1) = Some q
      \<and> \<not> eligible (gate fmt q) \<and> status q \<in> {COMPLETED, SKIPPED}
      \<and> (status q = COMPLETED \<longrightarrow> truthy (payment_order_id q))"
    if "iid \<in> inv_id ` set (investors db)" for iid fmt
  proof -
    from run_final_payout [OF e that c1] obtain investor ts w' where
      "find_payout eid iid (payouts ?db1)
       = Some (payout_after (process_single_payout env1 ts (new_run env1 eid)
           (ensure_payout env1 (new_run env1 eid) e db investor) e w'))"
      by blast
    then show ?thesis using process_with_success [OF ok] by blast
  qed
  have kept: "\<not> eligible (gate (float_str env2) (ensure_payout env2 ?run2 e ?db1 investor))
      \<and> (\<exists>r. find_payout eid (inv_id investor) (payouts ?db1) = Some r
            \<and> payment_order_id r
                = payment_order_id (ensure_payout env2 ?run2 e ?db1 investor))"
    if "investor \<in> set (investors db)" for investor
  proof -
    from settled [of "inv_id investor" "float_str env2"] that obtain q where
      q: "find_payout eid (inv_id investor) (payouts ?db1) = Some q"
        "\<not> eligible (gate (float_str env2) q)"
      by auto
    have f: "find_payout (run_event_id ?run2) (inv_id investor) (payouts ?db1) = Some q"
      using q(1) by (simp add: new_run_def)
    from ensure_payout_existing_fields(1) [OF f, of env2 e]
      ensure_payout_existing_fields(2) [OF f, of "float_str env2" env2 e] q
    show ?thesis by simp
  qed
  let ?todo = "map (ensure_payout env2 ?run2 e ?db1) (investors db)"
  have refused: "\<forall>p\<in>set ?todo. \<not> eligible (gate (float_str env2) p)"
    using kept by auto
  let ?t2 = "run_tally env2 ?db1 eid e ?w1"
  have t2: "successes ?t2 = 0" "failures ?t2 = 0" "skips ?t2 = length (investors db)"
    "submitted ?t2 = []"
    using process_payouts_all_refused [OF refused, of ?run2 e 0 "empty_tally ?w1"] i1
    by (simp_all add: empty_tally_def run_tally_def)
  have same: "\<exists>r. find_payout (liquidation_event_id q) (investor_id q) (payouts ?db1) = Some r
       \<and> payment_order_id r = payment_order_id q"
    if "q \<in> set (processed ?t2)" for q
  proof -
    from run_tally_keys [OF that] i1 obtain investor ts w' where
      inv: "investor \<in> set (investors db)"
      and q: "q = payout_after (process_single_payout env2 ts ?run2
                 (ensure_payout env2 ?run2 e ?db1 investor) e w')"
      by auto
    let ?p = "ensure_payout env2 ?run2 e ?db1 investor"
    from kept [OF inv] obtain r where
      r: "\<not> eligible (gate (float_str env2) ?p)"
        "find_payout eid (inv_id investor) (payouts ?db1) = Some r"
        "payment_order_id r = payment_order_id ?p" by blast
    have "liquidation_event_id q = eid" "investor_id q = inv_id investor"
      using q by (simp_all add: process_keeps_key ensure_payout_key new_run_def)
    moreover have "payment_order_id q = payment_order_id ?p"
      using q r(1) by (simp add: process_refused)
    ultimately show ?thesis using r(2,3) by simp
  qed
  have "distinct (order_ids (payouts ?db1))"
    using run_leaves_distinct_order_ids [OF e c1] .
  then have "commit_ok (clashing_write_order env2) (payouts ?db1) (processed ?t2)"
    using same by (intro commit_ok_unchanged) auto
  then have c2: "raised ?r2 = None"
    using execute_run_found(1) [OF e1, of env2 ?w1] by simp
  have r2: "created_count (run_row ?r2) = 0" "failed_count (run_row ?r2) = 0"
    "skipped_count (run_row ?r2) = length (investors db)" "requests_sent ?r2 = []"
    using execute_run_found(3-6) [OF e1, of env2 ?w1] t2 by simp_all
  let ?t1 = "run_tally env1 db eid e w"
  have "failures ?t1 = 0"
    using process_payouts_no_failures [OF ok] by (simp add: empty_tally_def run_tally_def)
  moreover have "successes ?t1 + skips ?t1 + failures ?t1 = length (investors db)"
    using process_payouts_count [of env1 "new_run env1 eid" e 0 _ "empty_tally w"]
    by (simp add: empty_tally_def run_tally_def)
  ultimately have first: "created_count (run_row ?r1) + skipped_count (run_row ?r1)
      = length (investors db)"
    using execute_run_found(4,5) [OF e, of env1 w] by simp
  have last: "\<exists>p2. find_payout eid iid (payouts (db_after ?r2)) = Some p2
             \<and> status p2 = SKIPPED
             \<and> payout_skip_reason p2 = Some EXISTING_PAYMENT_ORDER
             \<and> payment_order_id p2 = payment_order_id p1"
    if iid: "iid \<in> inv_id ` set (investors db)"
      and p1: "find_payout eid iid (payouts ?db1) = Some p1" "status p1 = COMPLETED"
    for iid p1
  proof -
    from settled [OF iid] p1 have "truthy (payment_order_id p1)" by auto
    moreover have "find (\<lambda>e. event_id e = eid) (events ?db1) \<noteq> None" using e1 by simp
    moreover have "iid \<in> inv_id ` set (investors ?db1)" using iid i1 by simp
    ultimately show ?thesis
      using run_marks_existing_order [of eid ?db1 iid p1 env2 ?w1] p1(1) c2 by blast
  qed
  show ?thesis
    unfolding twice using c2 r2 first last by auto
qed


subsection \<open>Concrete runs\<close>

lemmas demo_defs =
  demo_db_def demo_event_def demo_investors_def demo_env_def demo_paid_db_def
  demo_paid_payout_def demo_failed_payout_def demo_orphan_payout_def find_payout_def

lemma demo_runs_commit:
  "raised demo_first = None"
  "raised demo_second = None"
  "raised (execute_run (demo_env ''run-2'') demo_paid_db ''LIQ-TEST-001'' 0) = None"
  by code_simp+

text \<open>
  A provider that returns one order id for two payouts: the commit of the run raises,
  nothing is stored, and a second run submits the two requests again.
\<close>

lemma repeated_order_id_not_stored:
  "succeeds_with_order_id (demo_repeating_env ''run-1'')
   \<and> raised (execute_run (demo_repeating_env ''run-1'') demo_db ''LIQ-TEST-001'' 0)
       = Some IntegrityError
   \<and> db_after (execute_run (demo_repeating_env ''run-1'') demo_db ''LIQ-TEST-001'' 0) = demo_db
   \<and> length (requests_sent
        (execute_run (demo_repeating_env ''run-1'') demo_db ''LIQ-TEST-001'' 0)) = 2
   \<and> length (requests_sent
        (run_twice (demo_repeating_env ''run-1'') (demo_repeating_env ''run-2'') demo_db
           ''LIQ-TEST-001'' 0)) = 2"
proof -
  have "succeeds_with_order_id (demo_repeating_env ''run-1'')"
    by (simp add: succeeds_with_order_id_def demo_repeating_env_def demo_repeating_provider_def)
  moreover have "raised (execute_run (demo_repeating_env ''run-1'') demo_db ''LIQ-TEST-001'' 0)
       = Some IntegrityError"
    by code_simp
  moreover from this
  have "db_after (execute_run (demo_repeating_env ''run-1'') demo_db ''LIQ-TEST-001'' 0) = demo_db"
    by (simp add: execute_run_not_stored(1))
  moreover have "length (requests_sent
        (execute_run (demo_repeating_env ''run-1'') demo_db ''LIQ-TEST-001'' 0)) = 2"
    by code_simp
  moreover have "length (requests_sent
        (run_twice (demo_repeating_env ''run-1'') (demo_repeating_env ''run-2'') demo_db
           ''LIQ-TEST-001'' 0)) = 2"
    by code_simp
  ultimately show ?thesis by blast
qed

text \<open>
  C1, as stated for every non-null order id: a stored payout whose order id is the empty
  string is not null, yet the run submits a request for its recipient.
\<close>

theorem blank_order_id_counterexample:
  "payment_order_id demo_blank_payout \<noteq> None
   \<and> find_payout ''LIQ-TEST-001'' ''INV-001'' (payouts demo_blank_db) = Some demo_blank_payout
   \<and> map (\<lambda>rq. map_of (metadata rq) ''investor_id'')
        (requests_sent (execute_run (demo_env ''run-2'') demo_blank_db ''LIQ-TEST-001'' 0))
      = [Some ''INV-001'', Some ''INV-010'']"
  by code_simp

theorem existing_order_never_resubmitted_witness:
  "requests (process_single_payout (demo_env ''run-2'') ''2024-12-16 09:00 UTC''
       (new_run (demo_env ''run-2'') ''LIQ-TEST-001'') demo_paid_payout demo_event 0) = []
   \<and> (\<exists>p'. find_payout ''LIQ-TEST-001'' ''INV-001''
          (payouts (db_after (execute_run (demo_env ''run-2'') demo_paid_db ''LIQ-TEST-001'' 0)))
          = Some p'
        \<and> status p' = SKIPPED
        \<and> payout_skip_reason p' = Some EXISTING_PAYMENT_ORDER
        \<and> payment_order_id p' = Some ''po_ach_INV-001'')"
proof -
  have h: "payment_order_id demo_paid_payout = Some ''po_ach_INV-001''" "''po_ach_INV-001'' \<noteq> []"
    by (simp_all add: demo_paid_payout_def)
  have f: "find_payout ''LIQ-TEST-001'' ''INV-001'' (payouts demo_paid_db) = Some demo_paid_payout"
    by (simp add: demo_defs)
  have e: "find (\<lambda>e. event_id e = ''LIQ-TEST-001'') (events demo_paid_db) \<noteq> None
     \<and> ''INV-001'' \<in> inv_id ` set (investors demo_paid_db)
     \<and> raised (execute_run (demo_env ''run-2'') demo_paid_db ''LIQ-TEST-001'' 0) = None"
    using demo_runs_commit(3) by (simp add: demo_defs)
  show ?thesis
    using existing_order_never_resubmitted [OF h, of "demo_env ''run-2''"
        "''2024-12-16 09:00 UTC''" "new_run (demo_env ''run-2'') ''LIQ-TEST-001''" demo_event 0
        "''LIQ-TEST-001''" "''INV-001''" demo_paid_db 0] f e
    by blast
qed

text \<open>
  C3, as stated: the second of two runs, both committed, changes status, skip reason and
  notes of the payouts the first run completed, and the notes of the one it skipped.
\<close>

theorem completed_payout_reprocessed_counterexample:
  "raised demo_first = None \<and> raised demo_second = None
   \<and> map status (payouts (db_after demo_first)) = [COMPLETED, COMPLETED, SKIPPED]
   \<and> map status (payouts (db_after demo_second)) = [SKIPPED, SKIPPED, SKIPPED]
   \<and> map payout_skip_reason (payouts (db_after demo_first))
       = [None, None, Some MISSING_EXTERNAL_ACCOUNT]
   \<and> map payout_skip_reason (payouts (db_after demo_second))
       = [Some EXISTING_PAYMENT_ORDER, Some EXISTING_PAYMENT_ORDER, Some MISSING_EXTERNAL_ACCOUNT]
   \<and> map payout_notes (payouts (db_after demo_second))
       \<noteq> map payout_notes (payouts (db_after demo_first))"
  by code_simp

theorem settled_payout_reprocessed_witness:
  "(\<exists>p'. find_payout ''LIQ-TEST-001'' ''INV-001''
          (payouts (db_after (execute_run (demo_env ''run-2'') demo_paid_db ''LIQ-TEST-001'' 0)))
          = Some p'
        \<and> run_id p' = Some ''run-1'' \<and> status p' = SKIPPED \<and> rail p' = Some ''CCD''
        \<and> payout_notes p' \<noteq> None)
   \<and> (\<exists>p'. find_payout ''LIQ-TEST-001'' ''INV-010''
          (payouts (db_after (execute_run (demo_env ''run-2'') demo_paid_db ''LIQ-TEST-001'' 0)))
          = Some p'
        \<and> run_id p' = Some ''run-2'')
   \<and> find_payout ''LIQ-TEST-001'' ''INV-999''
          (payouts (db_after (execute_run (demo_env ''run-2'') demo_paid_db ''LIQ-TEST-001'' 0)))
        = Some demo_orphan_payout"
proof -
  have e: "find (\<lambda>e. event_id e = ''LIQ-TEST-001'') (events demo_paid_db) = Some demo_event"
    by (simp add: demo_defs)
  have f1: "find_payout ''LIQ-TEST-001'' ''INV-001'' (payouts demo_paid_db) = Some demo_paid_payout"
    and f2: "find_payout ''LIQ-TEST-001'' ''INV-010'' (payouts demo_paid_db) = Some demo_failed_payout"
    and f3: "find_payout ''LIQ-TEST-001'' ''INV-999'' (payouts demo_paid_db) = Some demo_orphan_payout"
    by (simp_all add: demo_defs)
  have i: "''INV-001'' \<in> inv_id ` set (investors demo_paid_db)"
    "''INV-010'' \<in> inv_id ` set (investors demo_paid_db)"
    "''INV-999'' \<notin> inv_id ` set (investors demo_paid_db)"
    by (simp_all add: demo_defs)
  have s: "status demo_paid_payout \<in> {COMPLETED, SKIPPED}"
    "status demo_failed_payout \<notin> {COMPLETED, SKIPPED}"
    "\<not> eligible (gate (float_str (demo_env ''run-2'')) demo_paid_payout)"
    "run_id demo_paid_payout = Some ''run-1''" "rail demo_paid_payout = Some ''CCD''"
    "payout_notes demo_paid_payout = None"
    "run_uuid (demo_env ''run-2'') = ''run-2''"
    by (simp_all add: demo_defs gate_def check_eligibility_def)
  note c = demo_runs_commit(3)
  show ?thesis
    using settled_payout_reprocessed [OF f1, where ev = demo_event
        and env = "demo_env ''run-2''" and w = 0]
      settled_payout_reprocessed [OF f2, where ev = demo_event
        and env = "demo_env ''run-2''" and w = 0]
      settled_payout_reprocessed [OF f3, where ev = demo_event
        and env = "demo_env ''run-2''" and w = 0]
      e i s c
    by metis
qed

text \<open>
  C2, as stated: with two eligible recipients and one without a bank account, the first
  run creates 2 and skips 1; the second run skips 3, not 2.
\<close>

theorem second_run_skip_count_counterexample:
  "raised demo_first = None \<and> raised demo_second = None
   \<and> created_count (run_row demo_first) = 2
   \<and> skipped_count (run_row demo_first) = 1
   \<and> created_count (run_row demo_second) = 0
   \<and> skipped_count (run_row demo_second) = 3
   \<and> skipped_count (run_row demo_second) \<noteq> created_count (run_row demo_first)"
  by code_simp

theorem second_run_skips_all_witness:
  "raised demo_second = None
   \<and> created_count (run_row demo_second) = 0
   \<and> failed_count (run_row demo_second) = 0
   \<and> skipped_count (run_row demo_second) = 3
   \<and> requests_sent demo_second = []"
proof -
  have ok: "succeeds_with_order_id (demo_env ''run-1'')"
    by (simp add: succeeds_with_order_id_def demo_env_def demo_provider_def)
  have e: "find (\<lambda>e. event_id e = ''LIQ-TEST-001'') (events demo_db) \<noteq> None"
    by (simp add: demo_defs)
  have c: "raised (execute_run (demo_env ''run-1'') demo_db ''LIQ-TEST-001'' 0) = None"
    using demo_runs_commit(1) by (simp add: demo_first_def)
  have n: "length (investors demo_db) = 3" by (simp add: demo_defs)
  have d: "demo_second = run_twice (demo_env ''run-1'') (demo_env ''run-2'') demo_db ''LIQ-TEST-001'' 0"
    by (simp add: demo_second_def demo_first_def run_twice_def Let_def)
  show ?thesis
    using second_run_skips_all [OF ok e c, of "demo_env ''run-2''"] n
    unfolding d by simp
qed

end
